theory Spec2Isabelle
  imports Complex_Main
begin

section \<open>Errors\<close>

text \<open>
  The Go code builds every error with \<^verbatim>\<open>fmt.Errorf\<close>. An error produced by the HTTP layer
  (\<^verbatim>\<open>Client.do\<close>: transport failure, cancelled or expired context, non-2xx status) or by JSON
  decoding is a \<open>RemoteError\<close> carrying its message; \<^verbatim>\<open>fmt.Errorf("prefix: %w", err)\<close> is
  \<open>Wrapped prefix err\<close>.
\<close>

datatype error = RemoteError string | Wrapped string error

section \<open>The paginated remote client (package itportal)\<close>

text \<open>
  \<^verbatim>\<open>ListOptions\<close> with the fields of the Go struct. \<^verbatim>\<open>*bool\<close> is \<open>bool option\<close>, the map
  \<^verbatim>\<open>Extra\<close> a partial function. Go's \<^verbatim>\<open>int\<close> is modelled by the unbounded \<open>int\<close>: the only
  arithmetic on it below is \<^verbatim>\<open>offset += len(items)\<close>, which counts elements held in memory
  and cannot reach \<open>2^63\<close>.
\<close>

record ListOptions =
  Name :: string
  NameStartsWith :: string
  CompanyID :: string
  SiteID :: string
  FacilityID :: string
  CabinetID :: string
  TypeName :: string
  IPAddress :: string
  MacAddress :: string
  SerialNumber :: string
  Tag :: string
  Manufacturer :: string
  ModifiedSince :: string
  InOut :: "bool option"
  Deleted :: "bool option"
  ForeignID :: string
  Limit :: int
  Offset :: int
  OrderBy :: string
  Extra :: "string \<rightharpoonup> string"

text \<open>The zero value \<^verbatim>\<open>ListOptions{}\<close>.\<close>

definition emptyListOptions :: ListOptions where
  "emptyListOptions =
     \<lparr>Name = [], NameStartsWith = [], CompanyID = [], SiteID = [], FacilityID = [],
      CabinetID = [], TypeName = [], IPAddress = [], MacAddress = [], SerialNumber = [],
      Tag = [], Manufacturer = [], ModifiedSince = [], InOut = None, Deleted = None,
      ForeignID = [], Limit = 0, Offset = 0, OrderBy = [], Extra = Map.empty\<rparr>"

text \<open>
  One call of \<^verbatim>\<open>listPage\<close> is one GET request: the path and the options handed to
  \<^verbatim>\<open>toQuery\<close> (a nil pointer is \<open>None\<close>). The remote service is a parameter. It answers a
  request with an error or with the decoded page (\<^verbatim>\<open>results\<close> and \<^verbatim>\<open>total\<close>), and its answer
  may depend on every request this client has sent before, so that a service of any
  behaviour, consistent or not, is an instance. The list of requests sent so far is the
  state threaded through the client.
\<close>

record PageRequest =
  req_path :: string
  req_opts :: "ListOptions option"

type_synonym 'a service = "PageRequest list \<Rightarrow> PageRequest \<Rightarrow> error + ('a list \<times> int)"

definition listPage ::
  "'a service \<Rightarrow> string \<Rightarrow> ListOptions option \<Rightarrow> PageRequest list
     \<Rightarrow> (error + ('a list \<times> int)) \<times> PageRequest list" where
  "listPage srv path opts sent =
     (let rq = \<lparr>req_path = path, req_opts = opts\<rparr> in (srv sent rq, sent @ [rq]))"

definition pageSize :: int where
  "pageSize = 100"

text \<open>
  The \<^verbatim>\<open>for { ... break }\<close> loop of \<^verbatim>\<open>listAll\<close>, with the loop variables \<^verbatim>\<open>all\<close> and
  \<^verbatim>\<open>offset\<close> as arguments. The source gives no bound on the number of iterations, so the
  loop is a partial function: \<open>None\<close> would be a run that never returns.
\<close>

partial_function (option) listAll_loop ::
  "'a service \<Rightarrow> string \<Rightarrow> ListOptions \<Rightarrow> int \<Rightarrow> 'a list \<Rightarrow> int \<Rightarrow> PageRequest list
     \<Rightarrow> ((error + 'a list) \<times> PageRequest list) option" where
  "listAll_loop srv path opts maxItems all offset sent =
     (let pagOpts = opts\<lparr>Limit := pageSize, Offset := offset\<rparr> in
      case listPage srv path (Some pagOpts) sent of
        (Inl err, sent') \<Rightarrow> Some (Inl err, sent')
      | (Inr (items, tot), sent') \<Rightarrow>
          (let all' = all @ items; offset' = offset + int (length items) in
           if offset' \<ge> tot \<or> offset' \<ge> maxItems \<or> length items = 0
           then Some (Inr all', sent')
           else listAll_loop srv path opts maxItems all' offset' sent'))"

definition listAll ::
  "'a service \<Rightarrow> string \<Rightarrow> ListOptions option \<Rightarrow> int \<Rightarrow> PageRequest list
     \<Rightarrow> ((error + 'a list) \<times> PageRequest list) option" where
  "listAll srv path opts maxItems sent =
     listAll_loop srv path (case opts of None \<Rightarrow> emptyListOptions | Some p \<Rightarrow> p)
       maxItems [] 0 sent"

definition page_request :: "string \<Rightarrow> ListOptions \<Rightarrow> int \<Rightarrow> PageRequest" where
  "page_request path opts offset =
     \<lparr>req_path = path, req_opts = Some (opts\<lparr>Limit := 100, Offset := offset\<rparr>)\<rparr>"

text \<open>
  The pagination rule in the words of the specification, as a relation between the state
  of the loop (the items accumulated, the offset, the requests sent) and its outcome.
  Every request asks for 100 items from the current offset. The run ends with the
  request that fails; it ends with the page after which the accumulated count has
  reached the total the service reports or the budget, or that holds no item; and only
  a page that holds an item and leaves the count below both is followed by another
  request, from the offset advanced by the number of items received.
\<close>

inductive pagination ::
  "'a service \<Rightarrow> string \<Rightarrow> ListOptions \<Rightarrow> int \<Rightarrow> 'a list \<Rightarrow> int \<Rightarrow> PageRequest list
     \<Rightarrow> error + 'a list \<Rightarrow> PageRequest list \<Rightarrow> bool"
  for srv :: "'a service" and path :: string and opts :: ListOptions and maxItems :: int
where
  failed:
    "srv sent (page_request path opts offset) = Inl err
     \<Longrightarrow> pagination srv path opts maxItems acc offset sent
           (Inl err) (sent @ [page_request path opts offset])"
| last_page:
    "srv sent (page_request path opts offset) = Inr (items, tot)
     \<Longrightarrow> offset + int (length items) \<ge> tot \<or> offset + int (length items) \<ge> maxItems
           \<or> items = []
     \<Longrightarrow> pagination srv path opts maxItems acc offset sent
           (Inr (acc @ items)) (sent @ [page_request path opts offset])"
| next_page:
    "srv sent (page_request path opts offset) = Inr (items, tot)
     \<Longrightarrow> offset + int (length items) < tot
     \<Longrightarrow> offset + int (length items) < maxItems
     \<Longrightarrow> items \<noteq> []
     \<Longrightarrow> pagination srv path opts maxItems (acc @ items) (offset + int (length items))
           (sent @ [page_request path opts offset]) r sent'
     \<Longrightarrow> pagination srv path opts maxItems acc offset sent r sent'"

code_pred (modes: i \<Rightarrow> i \<Rightarrow> i \<Rightarrow> i \<Rightarrow> i \<Rightarrow> i \<Rightarrow> i \<Rightarrow> o \<Rightarrow> o \<Rightarrow> bool) pagination .

text \<open>
  The synthetic service of the pagination property: a collection of \<open>T\<close> items (item
  \<open>i\<close> is the number \<open>i\<close>) that declares the total \<open>T\<close> on every page and answers a
  request for \<open>limit\<close> items from \<open>offset\<close> with the \<open>min limit (T - offset)\<close> items that
  remain from there. \<open>pages_from T maxItems k\<close> is the number of requests the loop makes
  when it starts at offset \<open>k\<close>.
\<close>

definition synthetic :: "nat \<Rightarrow> nat service" where
  "synthetic T sent rq =
     (case req_opts rq of
        None \<Rightarrow> Inr ([0..<T], int T)
      | Some p \<Rightarrow>
          Inr ([nat (Offset p) ..< min T (nat (Offset p) + nat (Limit p))], int T))"

definition pages_from :: "nat \<Rightarrow> int \<Rightarrow> nat \<Rightarrow> nat" where
  "pages_from T maxItems k = max 1 ((nat (min (int T) maxItems) - k + 99) div 100)"

section \<open>Go library functions on strings\<close>

text \<open>
  \<^verbatim>\<open>strings.HasPrefix\<close>, \<^verbatim>\<open>strings.TrimPrefix\<close> and \<^verbatim>\<open>strings.ReplaceAll\<close>, over any kind of
  string element. \<^verbatim>\<open>ReplaceAll\<close> scans from the left and replaces non-overlapping
  occurrences; the code only ever calls it with a non-empty \<^verbatim>\<open>old\<close>, and that is the case
  defined here (an empty \<^verbatim>\<open>old\<close> leaves the string as it is).
\<close>

definition HasPrefix :: "'c list \<Rightarrow> 'c list \<Rightarrow> bool" where
  "HasPrefix s prefix = (length s \<ge> length prefix \<and> take (length prefix) s = prefix)"

definition TrimPrefix :: "'c list \<Rightarrow> 'c list \<Rightarrow> 'c list" where
  "TrimPrefix s prefix = (if HasPrefix s prefix then drop (length prefix) s else s)"

function ReplaceAll :: "'c list \<Rightarrow> 'c list \<Rightarrow> 'c list \<Rightarrow> 'c list" where
  "ReplaceAll s old new =
     (if s = [] then []
      else if old \<noteq> [] \<and> HasPrefix s old
        then new @ ReplaceAll (drop (length old) s) old new
      else hd s # ReplaceAll (tl s) old new)"
  by pat_completeness auto
termination
  by (relation "measure (\<lambda>(s, old, new). length s)") auto

declare ReplaceAll.simps [simp del]

section \<open>Logging\<close>

text \<open>
  A call of the \<^verbatim>\<open>slog\<close> logger is a record of its level, message and attributes; functions
  that log return the records they wrote.
\<close>

datatype log_level = LevelInfo | LevelWarn | LevelError

datatype log_value = LStr string | LInt int | LErr error

datatype log_record = LogRecord log_level string "(string \<times> log_value) list"

section \<open>The API key middleware (cmd/server)\<close>

text \<open>
  Of a request the middleware reads the header map (\<^verbatim>\<open>map[string][]string\<close>, keys in
  canonical form) and the remote address. \<^verbatim>\<open>Header.Get\<close> returns the first value stored
  under the key, or the empty string; the key \<^verbatim>\<open>Authorization\<close> is already canonical.
  Header values are byte strings, compared byte by byte.
\<close>

record Request =
  Header :: "string \<rightharpoonup> string list"
  RemoteAddr :: string

definition Header_Get :: "(string \<rightharpoonup> string list) \<Rightarrow> string \<Rightarrow> string" where
  "Header_Get h key =
     (case h key of None \<Rightarrow> [] | Some vs \<Rightarrow> (case vs of [] \<Rightarrow> [] | v # _ \<Rightarrow> v))"

text \<open>
  What the wrapped handler function did with a request: it called \<^verbatim>\<open>next.ServeHTTP\<close>, and
  \<open>Next\<close> holds whatever that produced, or it answered itself through \<^verbatim>\<open>http.Error\<close> with a
  body and a status code.
\<close>

datatype 'r served = Next 'r | HttpError string int

definition apiKeyMiddleware ::
  "string \<Rightarrow> (Request \<Rightarrow> 'r) \<Rightarrow> Request \<Rightarrow> 'r served \<times> log_record list" where
  "apiKeyMiddleware expectedKey next r =
     (let authHeader = Header_Get (Header r) ''Authorization'' in
      if \<not> HasPrefix authHeader ''Bearer '' then
        (HttpError ''Unauthorized'' 401,
         [LogRecord LevelWarn ''missing or malformed Authorization header''
            [(''remote'', LStr (RemoteAddr r))]])
      else
        (let token = TrimPrefix authHeader ''Bearer '' in
         if token \<noteq> expectedKey then
           (HttpError ''Forbidden'' 403,
            [LogRecord LevelWarn ''invalid API key'' [(''remote'', LStr (RemoteAddr r))]])
         else (Next (next r), [])))"

section \<open>The list_entities tool (package mcp)\<close>

text \<open>
  The input of the tool, the JSON object it answers with (the local type \<^verbatim>\<open>result\<close>) and
  the tool results of the helpers \<^verbatim>\<open>toolText\<close> and \<^verbatim>\<open>toolError\<close>. The JSON text that
  \<^verbatim>\<open>json.MarshalIndent\<close> writes is not modelled: a text result holds the marshalled value
  itself, and an error result holds the format string and its argument.
\<close>

record ListEntitiesInput =
  inp_EntityType :: string
  inp_Name :: string
  inp_NameStartsWith :: string
  inp_CompanyID :: string
  inp_SiteID :: string
  inp_TypeName :: string
  inp_IPAddress :: string
  inp_SerialNumber :: string
  inp_Manufacturer :: string
  inp_ModifiedSince :: string
  inp_Limit :: int
  inp_Offset :: int

record 'a list_result =
  res_Total :: int
  res_Offset :: int
  res_Limit :: int
  res_Items :: "'a list"

datatype 'v CallToolResult = ToolText 'v | ToolErrorf string string

text \<open>
  The \<^verbatim>\<open>switch\<close> of \<^verbatim>\<open>ListEntities\<close> as a table: for a normalised entity type, whether the
  client method is a single \<^verbatim>\<open>listPage\<close> with the caller's options (\<open>True\<close>) or a
  \<^verbatim>\<open>listAll\<close> without options and with a budget of 500 (\<open>False\<close>: \<^verbatim>\<open>ListKBCategories\<close>,
  \<^verbatim>\<open>ListDeviceTypes\<close>), the path the method requests, and the prefix its error is wrapped
  with. \<open>None\<close> is the \<^verbatim>\<open>default\<close> branch.
\<close>

definition entity_endpoint :: "string \<Rightarrow> (bool \<times> string \<times> string) option" where
  "entity_endpoint key =
     (if key = ''company'' then Some (True, ''/api/2.0/companies/'', ''list companies'')
      else if key = ''site'' then Some (True, ''/api/2.0/sites/'', ''list sites'')
      else if key = ''device'' then Some (True, ''/api/2.0/devices/'', ''list devices'')
      else if key = ''kb'' \<or> key = ''knowledgebase''
        then Some (True, ''/api/2.0/kbs/'', ''list KBs'')
      else if key = ''contact'' then Some (True, ''/api/2.0/contacts/'', ''list contacts'')
      else if key = ''account'' then Some (True, ''/api/2.0/accounts/'', ''list accounts'')
      else if key = ''agreement''
        then Some (True, ''/api/2.0/agreements/'', ''list agreements'')
      else if key = ''document'' then Some (True, ''/api/2.0/documents/'', ''list documents'')
      else if key = ''facility''
        then Some (True, ''/api/2.0/facilities/'', ''list facilities'')
      else if key = ''cabinet'' then Some (True, ''/api/2.0/cabinets/'', ''list cabinets'')
      else if key = ''configuration''
        then Some (True, ''/api/2.0/configurations/'', ''list configurations'')
      else if key = ''ipnetwork''
        then Some (True, ''/api/2.0/ipnetworks/'', ''list IP networks'')
      else if key = ''kbcategory''
        then Some (False, ''/api/2.0/categories/kb/'', ''list KB categories'')
      else if key = ''devicetype''
        then Some (False, ''/api/2.0/types/device/'', ''list device types'')
      else if key = ''template'' then Some (True, ''/api/2.0/templates/'', ''list templates'')
      else None)"

text \<open>
  \<^verbatim>\<open>ListEntities\<close>. \<^verbatim>\<open>strings.ToLower\<close> is the parameter \<open>lower\<close>. The items of every
  entity type are values of one type \<open>'a\<close> (the Go code holds them in an \<^verbatim>\<open>interface{}\<close>).
  The last error branch of the source, a failure of \<^verbatim>\<open>json.MarshalIndent\<close>, cannot be
  taken for these values and is left out.
\<close>

definition ListEntities ::
  "'a service \<Rightarrow> (string \<Rightarrow> string) \<Rightarrow> ListEntitiesInput \<Rightarrow> PageRequest list
     \<Rightarrow> ((error + 'a list_result CallToolResult) \<times> PageRequest list) option" where
  "ListEntities srv lower input sent =
     (let limit = (if inp_Limit input \<le> 0 then 50 else inp_Limit input);
          limit = (if limit > 500 then 500 else limit);
          opts = emptyListOptions
            \<lparr>Name := inp_Name input,
             NameStartsWith := inp_NameStartsWith input,
             CompanyID := inp_CompanyID input,
             SiteID := inp_SiteID input,
             TypeName := inp_TypeName input,
             IPAddress := inp_IPAddress input,
             SerialNumber := inp_SerialNumber input,
             Manufacturer := inp_Manufacturer input,
             ModifiedSince := inp_ModifiedSince input,
             Limit := limit,
             Offset := inp_Offset input\<rparr>
      in
      case entity_endpoint (lower (ReplaceAll (inp_EntityType input) ''_'' [])) of
        None \<Rightarrow>
          Some (Inr (ToolErrorf
            ''unknown entity_type %q. Valid values: company, site, device, kb, contact, account, agreement, document, facility, cabinet, configuration, ipnetwork, kb_category, device_type, template''
            (inp_EntityType input)), sent)
      | Some (paged, path, label) \<Rightarrow>
          if paged then
            (case listPage srv path (Some opts) sent of
               (Inl err, sent') \<Rightarrow> Some (Inl (Wrapped label err), sent')
             | (Inr (v, t), sent') \<Rightarrow>
                 Some (Inr (ToolText \<lparr>res_Total = t, res_Offset = inp_Offset input,
                                       res_Limit = limit, res_Items = v\<rparr>), sent'))
          else
            (case listAll srv path None 500 sent of
               None \<Rightarrow> None
             | Some (Inl err, sent') \<Rightarrow> Some (Inl (Wrapped label err), sent')
             | Some (Inr v, sent') \<Rightarrow>
                 Some (Inr (ToolText \<lparr>res_Total = int (length v), res_Offset = inp_Offset input,
                                       res_Limit = limit, res_Items = v\<rparr>), sent')))"

text \<open>
  An invocation for KB categories with limit 10 and offset 7, and a service whose every
  collection is empty.
\<close>

definition kb_category_page :: ListEntitiesInput where
  "kb_category_page =
     \<lparr>inp_EntityType = ''kb_category'', inp_Name = [], inp_NameStartsWith = [],
      inp_CompanyID = [], inp_SiteID = [], inp_TypeName = [], inp_IPAddress = [],
      inp_SerialNumber = [], inp_Manufacturer = [], inp_ModifiedSince = [], inp_Limit = 10,
      inp_Offset = 7\<rparr>"

definition empty_service :: "nat service" where
  "empty_service sent rq = Inr ([], 0)"

section \<open>Text in the snapshot\<close>

text \<open>
  Every string of a snapshot comes out of \<^verbatim>\<open>encoding/json\<close>, which delivers valid UTF-8
  (it replaces an invalid byte by U+FFFD), and the renderer iterates and counts runes
  (\<^verbatim>\<open>for _, r := range s\<close>, \<^verbatim>\<open>[]rune(clean)\<close>). So the text of a snapshot is modelled by
  its sequence of code points: a \<open>rune\<close> is the number of a code point, \<open>length\<close> counts
  runes, and \<^verbatim>\<open>[]rune(s)\<close> and \<^verbatim>\<open>string(runes)\<close> are the identity. \<open>utf8_len\<close> is what Go's
  \<^verbatim>\<open>len\<close> would report: the number of bytes of the UTF-8 encoding.
\<close>

type_synonym rune = nat

type_synonym gostring = "rune list"

definition str :: "string \<Rightarrow> gostring" where
  "str s = map of_char s"

definition nl :: gostring where
  "nl = [10]"

definition em_dash :: rune where
  "em_dash = 0x2014"

definition middle_dot :: rune where
  "middle_dot = 0xB7"

definition ellipsis :: rune where
  "ellipsis = 0x2026"

definition utf8_width :: "rune \<Rightarrow> nat" where
  "utf8_width r = (if r < 0x80 then 1 else if r < 0x800 then 2 else if r < 0x10000 then 3 else 4)"

definition utf8_len :: "gostring \<Rightarrow> nat" where
  "utf8_len s = sum_list (map utf8_width s)"

text \<open>\<^verbatim>\<open>unicode.IsSpace\<close>: the Latin-1 spaces and the code points of category Z.\<close>

definition IsSpace :: "rune \<Rightarrow> bool" where
  "IsSpace r =
     (r = 0x09 \<or> r = 0x0A \<or> r = 0x0B \<or> r = 0x0C \<or> r = 0x0D \<or> r = 0x20 \<or> r = 0x85
      \<or> r = 0xA0 \<or> r = 0x1680 \<or> (0x2000 \<le> r \<and> r \<le> 0x200A) \<or> r = 0x2028
      \<or> r = 0x2029 \<or> r = 0x202F \<or> r = 0x205F \<or> r = 0x3000)"

definition TrimSpace :: "gostring \<Rightarrow> gostring" where
  "TrimSpace s = rev (dropWhile IsSpace (rev (dropWhile IsSpace s)))"

text \<open>
  \<^verbatim>\<open>strings.Fields\<close>: the maximal runs of non-space runes, in order.
  \<^verbatim>\<open>strings.Join\<close> puts the separator between them.
\<close>

function Fields :: "gostring \<Rightarrow> gostring list" where
  "Fields s =
     (case dropWhile IsSpace s of
        [] \<Rightarrow> []
      | r # rs \<Rightarrow>
          takeWhile (\<lambda>x. \<not> IsSpace x) (r # rs)
            # Fields (dropWhile (\<lambda>x. \<not> IsSpace x) (r # rs)))"
  by pat_completeness auto
termination
proof (relation "measure length")
  show "wf (measure length)" by simp
next
  fix s :: gostring and r rs
  assume d: "dropWhile IsSpace s = r # rs"
  then have "\<not> IsSpace r" using hd_dropWhile[of IsSpace s] by simp
  then have "length (dropWhile (\<lambda>x. \<not> IsSpace x) (r # rs)) \<le> length rs"
    by (simp add: length_dropWhile_le)
  moreover have "length (r # rs) \<le> length s"
    using d length_dropWhile_le[of IsSpace s] by simp
  ultimately show "(dropWhile (\<lambda>x. \<not> IsSpace x) (r # rs), s) \<in> measure length"
    by simp
qed

declare Fields.simps [simp del]

fun Join :: "gostring list \<Rightarrow> gostring \<Rightarrow> gostring" where
  "Join [] sep = []"
| "Join [x] sep = x"
| "Join (x # y # zs) sep = x @ sep @ Join (y # zs) sep"

text \<open>
  The verb \<^verbatim>\<open>%d\<close> of \<^verbatim>\<open>fmt\<close> for an \<^verbatim>\<open>int\<close>: the decimal digits, with a minus sign for a
  negative number.
\<close>

function digits :: "nat \<Rightarrow> gostring" where
  "digits n = (if n < 10 then [48 + n] else digits (n div 10) @ [48 + n mod 10])"
  by pat_completeness auto
termination
  by (relation "measure id") auto

declare digits.simps [simp del]

definition itoa :: "int \<Rightarrow> gostring" where
  "itoa i = (if i < 0 then 45 # digits (nat (- i)) else digits (nat i))"

text \<open>
  \<^verbatim>\<open>truncate\<close>. The five \<^verbatim>\<open>ReplaceAll\<close> calls, the loop that drops everything between
  the runes \<open>60\<close> (less-than sign) and \<open>62\<close> (greater-than sign) (\<open>stripTags\<close>, with the loop variable \<^verbatim>\<open>inTag\<close> as argument), the
  whitespace normalisation and the cut. Every call in the renderer passes a positive
  constant for \<^verbatim>\<open>max\<close>, so it is a natural number here. The function is named
  \<open>truncate_text\<close> because every record declares a \<open>truncate\<close> of its own.
\<close>

fun stripTags :: "bool \<Rightarrow> gostring \<Rightarrow> gostring" where
  "stripTags inTag [] = []"
| "stripTags inTag (r # rs) =
     (if r = 60 then stripTags True rs
      else if r = 62 then stripTags False rs
      else if \<not> inTag then r # stripTags inTag rs
      else stripTags inTag rs)"

definition clean_html :: "gostring \<Rightarrow> gostring" where
  "clean_html s =
     (let s = ReplaceAll s (str ''<br>'') (str '' '');
          s = ReplaceAll s (str ''<br/>'') (str '' '');
          s = ReplaceAll s (str ''<br />'') (str '' '');
          s = ReplaceAll s (str ''</p>'') (str '' '');
          s = ReplaceAll s (str ''</div>'') (str '' '');
          sb = stripTags False s
      in Join (Fields sb) (str '' ''))"

definition truncate_text :: "gostring \<Rightarrow> nat \<Rightarrow> gostring" where
  "truncate_text s max_runes =
     (let clean = clean_html s; runes = clean in
      if length runes \<le> max_runes then clean
      else take max_runes runes @ [ellipsis])"

section \<open>Entity types (package itportal)\<close>

text \<open>
  The Go structs of the twelve entity kinds of a snapshot, field by field. A pointer
  field is an \<open>option\<close>, \<^verbatim>\<open>float64\<close> is \<open>real\<close>. The reference structs with the two fields
  \<^verbatim>\<open>ID\<close> and \<^verbatim>\<open>Name\<close> (\<^verbatim>\<open>CompanyReference\<close>, \<^verbatim>\<open>SiteReference\<close>, \<^verbatim>\<open>ContactReference\<close>,
  \<^verbatim>\<open>DocumentReference\<close>, \<^verbatim>\<open>DeviceReference\<close>, \<^verbatim>\<open>FacilityReference\<close>, \<^verbatim>\<open>CabinetReference\<close>,
  \<^verbatim>\<open>TypeItem\<close>, \<^verbatim>\<open>KBCategory\<close> and the \<^verbatim>\<open>...Type\<close> structs) are one record. Field names
  carry a prefix for their struct, since the field names of records are global.
\<close>

record Reference =
  ref_ID :: int
  ref_Name :: gostring

record IPRef =
  ip_ID :: int
  ip_IP :: gostring

record ContactEmailReference =
  cer_ID :: int
  cer_Email :: gostring
  cer_Name :: gostring

record UserReference =
  ur_ID :: int
  ur_Contact :: "ContactEmailReference option"

record Address =
  ad_ID :: int
  Address1 :: gostring
  Address2 :: gostring
  City :: gostring
  State :: gostring
  Zip :: gostring
  Country :: gostring

record Company =
  co_ID :: int
  co_ParentCompany :: "Reference option"
  co_Name :: gostring
  co_Site :: "Reference option"
  co_Address :: "Address option"
  co_StartDate :: gostring
  co_Description :: gostring
  co_Abbreviation :: gostring
  co_WebSite :: gostring
  co_Status :: gostring
  co_Notes :: gostring
  co_NotesHtml :: bool
  co_RemoteAccessNotes :: gostring
  co_RemoteAccessNotesHtml :: bool
  co_ForeignID :: int
  co_InOut :: "bool option"
  co_InOutNotes :: gostring
  co_Modified :: gostring
  co_URL :: gostring

record Site =
  si_ID :: int
  si_Name :: gostring
  si_Company :: "Reference option"
  si_Description :: gostring
  si_Contact :: "Reference option"
  si_Diagram :: "Reference option"
  si_NumberOfPCs :: int
  si_ReviewBy :: "UserReference option"
  si_DueDate :: gostring
  si_Address :: "Address option"
  si_ForeignID :: int
  si_ForeignType :: gostring
  si_InOut :: "bool option"
  si_InOutNotes :: gostring
  si_Modified :: gostring
  si_URL :: gostring

record Device =
  d_ID :: int
  d_Name :: gostring
  d_Company :: "Reference option"
  d_Site :: "Reference option"
  d_Cabinet :: "Reference option"
  d_Facility :: "Reference option"
  d_Type :: "Reference option"
  d_Description :: gostring
  d_Location :: gostring
  d_Domain :: gostring
  d_InstallDate :: gostring
  d_WarrantyExpires :: gostring
  d_PurchaseDate :: gostring
  d_RetireDate :: gostring
  d_LeaseEndDate :: gostring
  d_Manufacturer :: gostring
  d_Model :: gostring
  d_IMEI :: gostring
  d_Serial :: gostring
  d_Tag :: gostring
  d_NumberCPU :: int
  d_NumberCores :: int
  d_PurchasePrice :: real
  d_ReviewBy :: "UserReference option"
  d_DueDate :: gostring
  d_ForeignID :: int
  d_ForeignType :: gostring
  d_InOut :: "bool option"
  d_InOutNotes :: gostring
  d_Modified :: gostring
  d_URL :: gostring

record KB =
  kb_ID :: int
  kb_Name :: gostring
  kb_Company :: "Reference option"
  kb_Description :: gostring
  kb_URIPath :: gostring
  kb_Public :: bool
  kb_Expires :: gostring
  kb_Category :: "Reference option"
  kb_ReviewBy :: "UserReference option"
  kb_DueDate :: gostring
  kb_InOut :: "bool option"
  kb_InOutNotes :: gostring
  kb_Modified :: gostring
  kb_URL :: gostring

record Contact =
  ct_ID :: int
  ct_Company :: "Reference option"
  ct_FirstName :: gostring
  ct_MiddleInitial :: gostring
  ct_LastName :: gostring
  ct_Type :: "Reference option"
  ct_Site :: "Reference option"
  ct_Email :: gostring
  ct_DirectNumber :: gostring
  ct_Extension :: gostring
  ct_DirectFax :: gostring
  ct_HomePhone :: gostring
  ct_Mobile :: gostring
  ct_Notes :: gostring
  ct_Modified :: gostring
  ct_URL :: gostring

record Account =
  ac_ID :: int
  ac_Company :: "Reference option"
  ac_Type :: "Reference option"
  ac_Username :: gostring
  ac_Password :: gostring
  ac_TwoFACode :: gostring
  ac_AccountNumber :: gostring
  ac_Expires :: gostring
  ac_Description :: gostring
  ac_Email :: gostring
  ac_Representative :: gostring
  ac_AccountURL :: gostring
  ac_TechTelephone :: gostring
  ac_SalesTelephone :: gostring
  ac_ReviewBy :: "UserReference option"
  ac_DueDate :: gostring
  ac_Notes :: gostring
  ac_Modified :: gostring
  ac_URL :: gostring

record Agreement =
  ag_ID :: int
  ag_Company :: "Reference option"
  ag_Type :: "Reference option"
  ag_Description :: gostring
  ag_Vendor :: gostring
  ag_Site :: "Reference option"
  ag_Contact :: "Reference option"
  ag_Count :: int
  ag_Cost :: real
  ag_DateIssued :: gostring
  ag_DateExpires :: gostring
  ag_SerialNumber :: gostring
  ag_InstallDate :: gostring
  ag_ReviewBy :: "UserReference option"
  ag_DueDate :: gostring
  ag_ForeignID :: int
  ag_ForeignType :: gostring
  ag_Notes :: gostring
  ag_Modified :: gostring
  ag_URL :: gostring

record Document =
  doc_ID :: int
  doc_Company :: "Reference option"
  doc_Type :: "Reference option"
  doc_Description :: gostring
  doc_URLLink :: gostring
  doc_Public :: bool
  doc_ReviewBy :: "UserReference option"
  doc_DueDate :: gostring
  doc_InOut :: "bool option"
  doc_InOutNotes :: gostring
  doc_Modified :: gostring
  doc_URL :: gostring

record IPNetwork =
  net_ID :: int
  net_Name :: gostring
  net_Company :: "Reference option"
  net_Description :: gostring
  net_Site :: "Reference option"
  net_Network :: gostring
  net_SubnetMask :: gostring
  net_DefaultGateway :: "IPRef option"
  net_DNSServer1 :: "IPRef option"
  net_DNSServer2 :: "IPRef option"
  net_DHCPServer :: "IPRef option"
  net_VlanID :: int
  net_ReviewBy :: "UserReference option"
  net_DueDate :: gostring
  net_Notes :: gostring
  net_Modified :: gostring

record Facility =
  f_ID :: int
  f_Name :: gostring
  f_Company :: "Reference option"
  f_Type :: "Reference option"
  f_Site :: "Reference option"
  f_Description :: gostring
  f_NumberOfUsers :: int
  f_Diagram :: "Reference option"
  f_ReviewBy :: "UserReference option"
  f_DueDate :: gostring
  f_Address :: "Address option"
  f_Notes :: gostring
  f_Modified :: gostring
  f_URL :: gostring

record Cabinet =
  cab_ID :: int
  cab_Name :: gostring
  cab_Company :: "Reference option"
  cab_Description :: gostring
  cab_Site :: "Reference option"
  cab_Facility :: "Reference option"
  cab_Contact :: "Reference option"
  cab_Diagram :: "Reference option"
  cab_ReviewBy :: "UserReference option"
  cab_DueDate :: gostring
  cab_Address :: "Address option"
  cab_Notes :: gostring
  cab_Modified :: gostring
  cab_URL :: gostring

record Configuration =
  cfg_ID :: int
  cfg_Name :: gostring
  cfg_Company :: "Reference option"
  cfg_Type :: "Reference option"
  cfg_Device :: "Reference option"
  cfg_URIPath :: gostring
  cfg_InstallDate :: gostring
  cfg_DateExpires :: gostring
  cfg_ReviewBy :: "UserReference option"
  cfg_DueDate :: gostring
  cfg_Notes :: gostring
  cfg_Modified :: gostring
  cfg_URL :: gostring

text \<open>
  The credential structs. No field of a snapshot has either type: device credentials
  are fetched only by \<^verbatim>\<open>GetDeviceCredentials\<close> and additional credentials only by
  \<^verbatim>\<open>ListAdditionalCredentials\<close>, neither of which the snapshot builder calls.
\<close>

record Credential =
  cr_ID :: int
  cr_Username :: gostring
  cr_Password :: gostring
  cr_Description :: gostring
  cr_Domain :: gostring
  cr_TwoFACode :: gostring

record AdditionalCredential =
  acr_ID :: int
  acr_URL :: gostring
  acr_Username :: gostring
  acr_Password :: gostring
  acr_Description :: gostring

section \<open>The snapshot (package cache)\<close>

text \<open>
  \<^verbatim>\<open>GeneratedAt\<close> is a \<^verbatim>\<open>time.Time\<close> in UTC, of which the renderer uses the civil date and
  time of day: those six numbers are the model of the instant.
\<close>

record Time =
  Year :: nat
  Month :: nat
  Day :: nat
  Hour :: nat
  Minute :: nat
  Second :: nat

record Snapshot =
  GeneratedAt :: Time
  Markdown :: gostring
  Companies :: "Company list"
  Sites :: "Site list"
  Devices :: "Device list"
  KBs :: "KB list"
  Contacts :: "Contact list"
  Agreements :: "Agreement list"
  IPNetworks :: "IPNetwork list"
  Documents :: "Document list"
  Accounts :: "Account list"
  Facilities :: "Facility list"
  Cabinets :: "Cabinet list"
  Configurations :: "Configuration list"

section \<open>The renderer\<close>

text \<open>
  Pieces of \<^verbatim>\<open>buildMarkdown\<close> that occur many times. \<open>bullet l v\<close> is
  \<^verbatim>\<open>Fprintf(&b, "- **l**: %s\n", v)\<close>, \<open>bullet_int\<close> the same with \<^verbatim>\<open>%d\<close>, \<open>bullet_ref\<close> is
  \<^verbatim>\<open>Fprintf(&b, "- **l**: %s (ID: %d)\n", r.Name, r.ID)\<close>. \<open>nonempty l v\<close> is the bullet
  under the guard \<^verbatim>\<open>v != ""\<close>, \<open>truncated l v n\<close> the bullet of \<^verbatim>\<open>truncate(v, n)\<close> under the
  same guard. \<open>companyCtx\<close> and \<open>typeName\<close> are the local variables of those names.
\<close>

definition bullet :: "string \<Rightarrow> gostring \<Rightarrow> gostring" where
  "bullet l v = str ''- **'' @ str l @ str ''**: '' @ v @ nl"

definition bullet_int :: "string \<Rightarrow> int \<Rightarrow> gostring" where
  "bullet_int l n = bullet l (itoa n)"

definition with_id :: "gostring \<Rightarrow> int \<Rightarrow> gostring" where
  "with_id name n = name @ str '' (ID: '' @ itoa n @ str '')''"

definition bullet_ref :: "string \<Rightarrow> Reference option \<Rightarrow> gostring" where
  "bullet_ref l r =
     (case r of None \<Rightarrow> [] | Some x \<Rightarrow> bullet l (with_id (ref_Name x) (ref_ID x)))"

definition bullet_name :: "string \<Rightarrow> Reference option \<Rightarrow> gostring" where
  "bullet_name l r = (case r of None \<Rightarrow> [] | Some x \<Rightarrow> bullet l (ref_Name x))"

definition nonempty :: "string \<Rightarrow> gostring \<Rightarrow> gostring" where
  "nonempty l v = (if v \<noteq> [] then bullet l v else [])"

definition truncated :: "string \<Rightarrow> gostring \<Rightarrow> nat \<Rightarrow> gostring" where
  "truncated l v n = (if v \<noteq> [] then bullet l (truncate_text v n) else [])"

definition positive :: "string \<Rightarrow> int \<Rightarrow> gostring" where
  "positive l n = (if n > 0 then bullet_int l n else [])"

definition companyCtx :: "Reference option \<Rightarrow> gostring" where
  "companyCtx r =
     (case r of None \<Rightarrow> [] | Some c \<Rightarrow> str '' '' @ [em_dash] @ str '' '' @ ref_Name c)"

definition typeName :: "Reference option \<Rightarrow> gostring" where
  "typeName r = (case r of None \<Rightarrow> [] | Some t \<Rightarrow> str '' ['' @ ref_Name t @ str '']'')"

definition section_heading :: "string \<Rightarrow> nat \<Rightarrow> gostring" where
  "section_heading title n =
     str ''## '' @ str title @ str '' ('' @ itoa (int n) @ str '')'' @ nl @ nl"

definition formatAddress :: "Address option \<Rightarrow> gostring" where
  "formatAddress p =
     (case p of
        None \<Rightarrow> []
      | Some a \<Rightarrow>
          (let parts = [];
               parts = (if Address1 a \<noteq> [] then parts @ [Address1 a] else parts);
               parts = (if Address2 a \<noteq> [] then parts @ [Address2 a] else parts);
               city = TrimSpace (City a @ str '' '' @ State a @ str '' '' @ Zip a);
               parts = (if city \<noteq> [] then parts @ [city] else parts);
               parts = (if Country a \<noteq> [] then parts @ [Country a] else parts)
           in Join parts (str '', '')))"

definition bullet_address :: "Address option \<Rightarrow> gostring" where
  "bullet_address p =
     (case p of None \<Rightarrow> [] | Some a \<Rightarrow> bullet ''Address'' (formatAddress (Some a)))"

text \<open>
  \<^verbatim>\<open>GeneratedAt.Format("2006-01-02 15:04:05")\<close>: the year on four digits at least, the
  other numbers on two.
\<close>

definition zero_pad :: "nat \<Rightarrow> nat \<Rightarrow> gostring" where
  "zero_pad width n = replicate (width - length (digits n)) 48 @ digits n"

definition format_time :: "Time \<Rightarrow> gostring" where
  "format_time t =
     zero_pad 4 (Year t) @ str ''-'' @ zero_pad 2 (Month t) @ str ''-'' @ zero_pad 2 (Day t)
     @ str '' '' @ zero_pad 2 (Hour t) @ str '':'' @ zero_pad 2 (Minute t) @ str '':''
     @ zero_pad 2 (Second t)"

text \<open>The body of each of the twelve loops of \<^verbatim>\<open>buildMarkdown\<close>, in the order of the source.\<close>

definition render_company :: "Company \<Rightarrow> gostring" where
  "render_company co =
     str ''### '' @ with_id (co_Name co) (co_ID co) @ nl
     @ nonempty ''Code'' (co_Abbreviation co)
     @ nonempty ''Status'' (co_Status co)
     @ nonempty ''Website'' (co_WebSite co)
     @ truncated ''Description'' (co_Description co) 300
     @ bullet_address (co_Address co)
     @ nonempty ''Client Since'' (co_StartDate co)
     @ truncated ''Notes'' (co_Notes co) 300
     @ truncated ''Remote Access Notes'' (co_RemoteAccessNotes co) 300
     @ nonempty ''Portal Link'' (co_URL co)
     @ nl"

definition render_site :: "Site \<Rightarrow> gostring" where
  "render_site si =
     str ''### '' @ with_id (si_Name si) (si_ID si) @ companyCtx (si_Company si) @ nl
     @ bullet_ref ''Company'' (si_Company si)
     @ truncated ''Description'' (si_Description si) 300
     @ bullet_address (si_Address si)
     @ bullet_ref ''Main Contact'' (si_Contact si)
     @ positive ''Number of PCs'' (si_NumberOfPCs si)
     @ nonempty ''Portal Link'' (si_URL si)
     @ nl"

definition device_locationCtx :: "Device \<Rightarrow> gostring" where
  "device_locationCtx d =
     (let locationCtx =
            (case d_Company d of
               None \<Rightarrow> []
             | Some c \<Rightarrow>
                 (case d_Site d of
                    None \<Rightarrow> ref_Name c
                  | Some s \<Rightarrow> ref_Name c @ str '' / '' @ ref_Name s))
      in if locationCtx \<noteq> [] then str '' '' @ [em_dash] @ str '' '' @ locationCtx
         else locationCtx)"

definition device_typeName :: "Device \<Rightarrow> gostring" where
  "device_typeName d =
     (case d_Type d of
        None \<Rightarrow> []
      | Some t \<Rightarrow> if ref_Name t \<noteq> [] then str '' ['' @ ref_Name t @ str '']'' else [])"

definition render_device :: "Device \<Rightarrow> gostring" where
  "render_device d =
     str ''### '' @ with_id (d_Name d) (d_ID d) @ device_typeName d @ device_locationCtx d @ nl
     @ bullet_ref ''Company'' (d_Company d)
     @ bullet_ref ''Site'' (d_Site d)
     @ bullet_name ''Type'' (d_Type d)
     @ nonempty ''Hardware'' (TrimSpace (d_Manufacturer d @ str '' '' @ d_Model d))
     @ nonempty ''Serial'' (d_Serial d)
     @ nonempty ''Tag'' (d_Tag d)
     @ nonempty ''IMEI'' (d_IMEI d)
     @ truncated ''Description'' (d_Description d) 300
     @ nonempty ''Location'' (d_Location d)
     @ nonempty ''Install Date'' (d_InstallDate d)
     @ nonempty ''Warranty Expires'' (d_WarrantyExpires d)
     @ nonempty ''Portal Link'' (d_URL d)
     @ nl"

definition render_kb :: "KB \<Rightarrow> gostring" where
  "render_kb kb =
     str ''### '' @ with_id (kb_Name kb) (kb_ID kb) @ companyCtx (kb_Company kb) @ nl
     @ bullet_ref ''Company'' (kb_Company kb)
     @ bullet_name ''Category'' (kb_Category kb)
     @ truncated ''Content'' (kb_Description kb) 500
     @ nonempty ''Expires'' (kb_Expires kb)
     @ nonempty ''Last Modified'' (kb_Modified kb)
     @ nonempty ''Portal Link'' (kb_URL kb)
     @ nl"

definition render_contact :: "Contact \<Rightarrow> gostring" where
  "render_contact co =
     (let fullName = TrimSpace (ct_FirstName co @ str '' '' @ ct_LastName co);
          fullName = (if fullName = [] then str ''Contact #'' @ itoa (ct_ID co) else fullName)
      in
      str ''### '' @ with_id fullName (ct_ID co) @ companyCtx (ct_Company co) @ nl
      @ bullet_ref ''Company'' (ct_Company co)
      @ bullet_name ''Role'' (ct_Type co)
      @ nonempty ''Email'' (ct_Email co)
      @ nonempty ''Direct'' (ct_DirectNumber co)
      @ nonempty ''Mobile'' (ct_Mobile co)
      @ bullet_name ''Site'' (ct_Site co)
      @ nl)"

definition render_agreement :: "Agreement \<Rightarrow> gostring" where
  "render_agreement ag =
     str ''### Agreement ID: '' @ itoa (ag_ID ag) @ typeName (ag_Type ag)
       @ companyCtx (ag_Company ag) @ nl
     @ bullet_ref ''Company'' (ag_Company ag)
     @ truncated ''Description'' (ag_Description ag) 200
     @ nonempty ''Vendor'' (ag_Vendor ag)
     @ nonempty ''Expires'' (ag_DateExpires ag)
     @ nonempty ''Portal Link'' (ag_URL ag)
     @ nl"

definition bullet_ip :: "string \<Rightarrow> IPRef option \<Rightarrow> gostring" where
  "bullet_ip l p =
     (case p of None \<Rightarrow> [] | Some x \<Rightarrow> if ip_IP x \<noteq> [] then bullet l (ip_IP x) else [])"

definition render_ipnetwork :: "IPNetwork \<Rightarrow> gostring" where
  "render_ipnetwork net =
     str ''### '' @ with_id (net_Name net) (net_ID net) @ companyCtx (net_Company net) @ nl
     @ bullet_ref ''Company'' (net_Company net)
     @ bullet_name ''Site'' (net_Site net)
     @ (if net_Network net \<noteq> [] \<or> net_SubnetMask net \<noteq> []
        then bullet ''Network'' (net_Network net @ str '' / '' @ net_SubnetMask net) else [])
     @ bullet_ip ''Default Gateway'' (net_DefaultGateway net)
     @ bullet_ip ''DNS Primary'' (net_DNSServer1 net)
     @ bullet_ip ''DNS Secondary'' (net_DNSServer2 net)
     @ positive ''VLAN'' (net_VlanID net)
     @ truncated ''Notes'' (net_Description net) 200
     @ nl"

definition render_document :: "Document \<Rightarrow> gostring" where
  "render_document doc =
     str ''### '' @ with_id (doc_Description doc) (doc_ID doc) @ typeName (doc_Type doc)
       @ companyCtx (doc_Company doc) @ nl
     @ bullet_ref ''Company'' (doc_Company doc)
     @ bullet_name ''Type'' (doc_Type doc)
     @ nonempty ''Link'' (doc_URLLink doc)
     @ nonempty ''Last Modified'' (doc_Modified doc)
     @ nonempty ''Portal Link'' (doc_URL doc)
     @ nl"

definition render_account :: "Account \<Rightarrow> gostring" where
  "render_account ac =
     (let heading = str ''Account ID: '' @ itoa (ac_ID ac) @ typeName (ac_Type ac)
                      @ companyCtx (ac_Company ac)
      in
      str ''### '' @ heading @ nl
      @ bullet_ref ''Company'' (ac_Company ac)
      @ bullet_name ''Type'' (ac_Type ac)
      @ nonempty ''Username'' (ac_Username ac)
      @ nonempty ''Account Number'' (ac_AccountNumber ac)
      @ nonempty ''Email'' (ac_Email ac)
      @ nonempty ''Representative'' (ac_Representative ac)
      @ nonempty ''Tech Support'' (ac_TechTelephone ac)
      @ nonempty ''Sales'' (ac_SalesTelephone ac)
      @ nonempty ''Account URL'' (ac_AccountURL ac)
      @ nonempty ''Expires'' (ac_Expires ac)
      @ truncated ''Description'' (ac_Description ac) 300
      @ truncated ''Notes'' (ac_Notes ac) 300
      @ nonempty ''Portal Link'' (ac_URL ac)
      @ nl)"

definition render_facility :: "Facility \<Rightarrow> gostring" where
  "render_facility f =
     str ''### '' @ with_id (f_Name f) (f_ID f) @ typeName (f_Type f)
       @ companyCtx (f_Company f) @ nl
     @ bullet_ref ''Company'' (f_Company f)
     @ bullet_ref ''Site'' (f_Site f)
     @ bullet_name ''Type'' (f_Type f)
     @ truncated ''Description'' (f_Description f) 300
     @ positive ''Number of Users'' (f_NumberOfUsers f)
     @ bullet_address (f_Address f)
     @ truncated ''Notes'' (f_Notes f) 300
     @ nonempty ''Portal Link'' (f_URL f)
     @ nl"

definition render_cabinet :: "Cabinet \<Rightarrow> gostring" where
  "render_cabinet cab =
     str ''### '' @ with_id (cab_Name cab) (cab_ID cab) @ companyCtx (cab_Company cab) @ nl
     @ bullet_ref ''Company'' (cab_Company cab)
     @ bullet_ref ''Site'' (cab_Site cab)
     @ bullet_ref ''Facility'' (cab_Facility cab)
     @ bullet_ref ''Contact'' (cab_Contact cab)
     @ truncated ''Description'' (cab_Description cab) 300
     @ bullet_address (cab_Address cab)
     @ truncated ''Notes'' (cab_Notes cab) 300
     @ nonempty ''Portal Link'' (cab_URL cab)
     @ nl"

definition render_configuration :: "Configuration \<Rightarrow> gostring" where
  "render_configuration cfg =
     str ''### '' @ with_id (cfg_Name cfg) (cfg_ID cfg) @ typeName (cfg_Type cfg)
       @ companyCtx (cfg_Company cfg) @ nl
     @ bullet_ref ''Company'' (cfg_Company cfg)
     @ bullet_name ''Type'' (cfg_Type cfg)
     @ bullet_ref ''Device'' (cfg_Device cfg)
     @ nonempty ''Install Date'' (cfg_InstallDate cfg)
     @ nonempty ''Expires'' (cfg_DateExpires cfg)
     @ truncated ''Notes'' (cfg_Notes cfg) 300
     @ nonempty ''Portal Link'' (cfg_URL cfg)
     @ nl"

text \<open>
  \<^verbatim>\<open>buildMarkdown\<close>: title, generation time, summary line and rule, then the sections.
  The first five sections are written even when empty, the other seven only when they
  have an item (\<open>optional_section\<close>).
\<close>

definition summary_line :: "Snapshot \<Rightarrow> gostring" where
  "summary_line s =
     str ''**Summary:** ''
     @ itoa (int (length (Companies s))) @ str '' companies '' @ [middle_dot] @ str '' ''
     @ itoa (int (length (Sites s))) @ str '' sites '' @ [middle_dot] @ str '' ''
     @ itoa (int (length (Devices s))) @ str '' devices '' @ [middle_dot] @ str '' ''
     @ itoa (int (length (KBs s))) @ str '' KB articles '' @ [middle_dot] @ str '' ''
     @ itoa (int (length (Contacts s))) @ str '' contacts '' @ [middle_dot] @ str '' ''
     @ itoa (int (length (Agreements s))) @ str '' agreements '' @ [middle_dot] @ str '' ''
     @ itoa (int (length (IPNetworks s))) @ str '' IP networks '' @ [middle_dot] @ str '' ''
     @ itoa (int (length (Documents s))) @ str '' documents '' @ [middle_dot] @ str '' ''
     @ itoa (int (length (Accounts s))) @ str '' accounts '' @ [middle_dot] @ str '' ''
     @ itoa (int (length (Facilities s))) @ str '' facilities '' @ [middle_dot] @ str '' ''
     @ itoa (int (length (Cabinets s))) @ str '' cabinets '' @ [middle_dot] @ str '' ''
     @ itoa (int (length (Configurations s))) @ str '' configurations'' @ nl @ nl"

definition render_section :: "string \<Rightarrow> ('a \<Rightarrow> gostring) \<Rightarrow> 'a list \<Rightarrow> gostring" where
  "render_section title render xs = section_heading title (length xs) @ concat (map render xs)"

definition optional_section :: "string \<Rightarrow> ('a \<Rightarrow> gostring) \<Rightarrow> 'a list \<Rightarrow> gostring" where
  "optional_section title render xs = (if length xs > 0 then render_section title render xs else [])"

definition buildMarkdown :: "Snapshot \<Rightarrow> gostring" where
  "buildMarkdown s =
     str ''# ITPortal Documentation Snapshot'' @ nl @ nl
     @ str ''_Generated: '' @ format_time (GeneratedAt s) @ str '' UTC_'' @ nl @ nl
     @ summary_line s
     @ str ''---'' @ nl @ nl
     @ render_section ''Companies'' render_company (Companies s)
     @ render_section ''Sites'' render_site (Sites s)
     @ render_section ''Devices'' render_device (Devices s)
     @ render_section ''Knowledge Base Articles'' render_kb (KBs s)
     @ render_section ''Contacts'' render_contact (Contacts s)
     @ optional_section ''Agreements'' render_agreement (Agreements s)
     @ optional_section ''IP Networks'' render_ipnetwork (IPNetworks s)
     @ optional_section ''Documents'' render_document (Documents s)
     @ optional_section ''Accounts'' render_account (Accounts s)
     @ optional_section ''Facilities'' render_facility (Facilities s)
     @ optional_section ''Cabinets'' render_cabinet (Cabinets s)
     @ optional_section ''Configurations'' render_configuration (Configurations s)"

text \<open>
  The account of the redaction scenario, with a password and a second-factor code, and
  a snapshot that holds it.
\<close>

definition example_account :: Account where
  "example_account =
     \<lparr>ac_ID = 7, ac_Company = Some \<lparr>ref_ID = 3, ref_Name = str ''Acme''\<rparr>, ac_Type = None,
      ac_Username = str ''admin'', ac_Password = str ''s3cr3t'', ac_TwoFACode = str ''123456'',
      ac_AccountNumber = [], ac_Expires = [],
      ac_Description = str ''<p>Main <b>router</b><br>login</p>'', ac_Email = [],
      ac_Representative = [], ac_AccountURL = [], ac_TechTelephone = [],
      ac_SalesTelephone = [], ac_ReviewBy = None, ac_DueDate = [], ac_Notes = [],
      ac_Modified = [], ac_URL = []\<rparr>"

definition example_snapshot :: Snapshot where
  "example_snapshot =
     \<lparr>GeneratedAt = \<lparr>Year = 2024, Month = 3, Day = 9, Hour = 7, Minute = 5, Second = 0\<rparr>,
      Markdown = [], Companies = [], Sites = [], Devices = [], KBs = [], Contacts = [],
      Agreements = [], IPNetworks = [], Documents = [], Accounts = [example_account],
      Facilities = [], Cabinets = [], Configurations = []\<rparr>"

section \<open>Markup and budgets in the words of the specification\<close>

text \<open>
  A marked-up text is a sequence of plain pieces and tags; it is well formed when no
  piece and no tag body holds an angle bracket (runes 60 and 62), so that the brackets
  of the text are exactly those that delimit its tags. \<open>markup\<close> is the text as written.
  \<open>visible_text\<close> is what the specification keeps of a segment: a plain piece as it is,
  a space for one of the five line-break forms \<^verbatim>\<open><br>\<close>, \<^verbatim>\<open><br/>\<close>, \<^verbatim>\<open><br />\<close>, \<^verbatim>\<open></p>\<close>,
  \<^verbatim>\<open></div>\<close>, nothing for any other tag. \<open>cap_runes\<close> is the cap: a text within the
  budget is kept, a longer one is cut after that many code points and ends with the
  marker. \<open>replace_tag\<close> and \<open>strip_segment\<close> describe, segment by segment, what one
  \<^verbatim>\<open>ReplaceAll\<close> pass and the tag-stripping loop of \<^verbatim>\<open>truncate\<close> do to a well-formed text.
\<close>

datatype segment = Plain gostring | Tag gostring

fun segment_text :: "segment \<Rightarrow> gostring" where
  "segment_text (Plain p) = p"
| "segment_text (Tag t) = [60] @ t @ [62]"

definition markup :: "segment list \<Rightarrow> gostring" where
  "markup segs = concat (map segment_text segs)"

definition angle_free :: "gostring \<Rightarrow> bool" where
  "angle_free s = (60 \<notin> set s \<and> 62 \<notin> set s)"

fun segment_ok :: "segment \<Rightarrow> bool" where
  "segment_ok (Plain p) = angle_free p"
| "segment_ok (Tag t) = angle_free t"

definition well_formed :: "segment list \<Rightarrow> bool" where
  "well_formed segs = list_all segment_ok segs"

definition line_breaks :: "gostring list" where
  "line_breaks = [str ''br'', str ''br/'', str ''br /'', str ''/p'', str ''/div'']"

fun visible_text :: "segment \<Rightarrow> gostring" where
  "visible_text (Plain p) = p"
| "visible_text (Tag t) = (if t \<in> set line_breaks then str '' '' else [])"

definition cap_runes :: "nat \<Rightarrow> gostring \<Rightarrow> gostring" where
  "cap_runes n t = (if length t \<le> n then t else take n t @ [ellipsis])"

fun replace_tag :: "gostring \<Rightarrow> segment \<Rightarrow> segment" where
  "replace_tag u (Plain p) = Plain p"
| "replace_tag u (Tag t) = (if t = u then Plain (str '' '') else Tag t)"

fun strip_segment :: "segment \<Rightarrow> gostring" where
  "strip_segment (Plain p) = p"
| "strip_segment (Tag t) = []"

text \<open>A paragraph with a line break, in segments.\<close>

definition example_markup :: "segment list" where
  "example_markup =
     [Tag (str ''p''), Plain (str ''Hello''), Tag (str ''br''), Plain (str ''big   world''),
      Tag (str ''/p'')]"

text \<open>An agreement whose description is 250 letters \<open>a\<close>, and nothing else.\<close>

definition long_agreement :: Agreement where
  "long_agreement =
     \<lparr>ag_ID = 1, ag_Company = None, ag_Type = None, ag_Description = replicate 250 97,
      ag_Vendor = [], ag_Site = None, ag_Contact = None, ag_Count = 0, ag_Cost = 0,
      ag_DateIssued = [], ag_DateExpires = [], ag_SerialNumber = [], ag_InstallDate = [],
      ag_ReviewBy = None, ag_DueDate = [], ag_ForeignID = 0, ag_ForeignType = [],
      ag_Notes = [], ag_Modified = [], ag_URL = []\<rparr>"

section \<open>The snapshot builder (package cache)\<close>

text \<open>
  What \<^verbatim>\<open>build\<close> uses of the client: the twelve methods \<^verbatim>\<open>ListAll...(egCtx, nil, lim)\<close>, each
  a function of the budget that returns an error or the items. They are \<^verbatim>\<open>listAll\<close> on the
  path of their kind; five of them (\<^verbatim>\<open>ListAllDocuments\<close>, \<^verbatim>\<open>ListAllAccounts\<close>,
  \<^verbatim>\<open>ListAllFacilities\<close>, \<^verbatim>\<open>ListAllCabinets\<close>, \<^verbatim>\<open>ListAllConfigurations\<close>) are called by \<^verbatim>\<open>build\<close>
  but their definitions are not part of the client source, so all twelve are fields of a record that
  stands for the client and the remote service behind it at the time of one build. A
  call that is cancelled, or cut by the deadline of five minutes on the build's context,
  returns the context's error: that is an \<open>Inl\<close> like any other.
\<close>

record Client =
  ListAllCompanies :: "int \<Rightarrow> error + Company list"
  ListAllSites :: "int \<Rightarrow> error + Site list"
  ListAllDevices :: "int \<Rightarrow> error + Device list"
  ListAllKBs :: "int \<Rightarrow> error + KB list"
  ListAllContacts :: "int \<Rightarrow> error + Contact list"
  ListAllAgreements :: "int \<Rightarrow> error + Agreement list"
  ListAllIPNetworks :: "int \<Rightarrow> error + IPNetwork list"
  ListAllDocuments :: "int \<Rightarrow> error + Document list"
  ListAllAccounts :: "int \<Rightarrow> error + Account list"
  ListAllFacilities :: "int \<Rightarrow> error + Facility list"
  ListAllCabinets :: "int \<Rightarrow> error + Cabinet list"
  ListAllConfigurations :: "int \<Rightarrow> error + Configuration list"

text \<open>
  The twelve goroutines of \<^verbatim>\<open>build\<close>, named by their kind, in the order of the \<^verbatim>\<open>eg.Go\<close>
  calls. \<open>task\<close> is what the function passed to \<^verbatim>\<open>eg.Go\<close> returns: \<open>None\<close> for \<^verbatim>\<open>nil\<close>, or the
  wrapped error. \<open>fetched\<close> is what it leaves in its result variable (\<^verbatim>\<open>nil\<close>, the empty
  slice, with an error).
\<close>

datatype kind =
  KCompanies | KSites | KDevices | KKBs | KContacts | KAgreements | KIPNetworks
  | KDocuments | KAccounts | KFacilities | KCabinets | KConfigurations

definition all_kinds :: "kind list" where
  "all_kinds =
     [KCompanies, KSites, KDevices, KKBs, KContacts, KAgreements, KIPNetworks,
      KDocuments, KAccounts, KFacilities, KCabinets, KConfigurations]"

definition wrap_error :: "string \<Rightarrow> error + 'a \<Rightarrow> error option" where
  "wrap_error label r = (case r of Inl err \<Rightarrow> Some (Wrapped label err) | Inr _ \<Rightarrow> None)"

definition fetched :: "error + 'a list \<Rightarrow> 'a list" where
  "fetched r = (case r of Inl _ \<Rightarrow> [] | Inr xs \<Rightarrow> xs)"

fun task :: "Client \<Rightarrow> int \<Rightarrow> kind \<Rightarrow> error option" where
  "task c limit KCompanies = wrap_error ''list companies'' (ListAllCompanies c limit)"
| "task c limit KSites = wrap_error ''list sites'' (ListAllSites c limit)"
| "task c limit KDevices = wrap_error ''list devices'' (ListAllDevices c limit)"
| "task c limit KKBs = wrap_error ''list KBs'' (ListAllKBs c limit)"
| "task c limit KContacts = wrap_error ''list contacts'' (ListAllContacts c limit)"
| "task c limit KAgreements = wrap_error ''list agreements'' (ListAllAgreements c limit)"
| "task c limit KIPNetworks = wrap_error ''list IP networks'' (ListAllIPNetworks c limit)"
| "task c limit KDocuments = wrap_error ''list documents'' (ListAllDocuments c limit)"
| "task c limit KAccounts = wrap_error ''list accounts'' (ListAllAccounts c limit)"
| "task c limit KFacilities = wrap_error ''list facilities'' (ListAllFacilities c limit)"
| "task c limit KCabinets = wrap_error ''list cabinets'' (ListAllCabinets c limit)"
| "task c limit KConfigurations =
     wrap_error ''list configurations'' (ListAllConfigurations c limit)"

text \<open>
  \<^verbatim>\<open>eg.Wait()\<close> of \<^verbatim>\<open>golang.org/x/sync/errgroup\<close>: it waits for every goroutine and returns
  the first non-nil error that one of them returned, first in the order in which they
  returned. That order is the scheduler's, so it is a parameter, \<open>finished\<close>; a goroutine
  it does not list counts as returning after the listed ones, in program order.
\<close>

definition eg_Wait :: "kind list \<Rightarrow> (kind \<Rightarrow> error option) \<Rightarrow> error option" where
  "eg_Wait finished ret =
     (case filter (\<lambda>k. ret k \<noteq> None) (finished @ all_kinds) of
        [] \<Rightarrow> None
      | k # _ \<Rightarrow> ret k)"

text \<open>\<^verbatim>\<open>build\<close>, with the order of completion and the reading of the clock as arguments.\<close>

definition build :: "Client \<Rightarrow> int \<Rightarrow> kind list \<Rightarrow> Time \<Rightarrow> error + Snapshot" where
  "build client limit finished now =
     (case eg_Wait finished (task client limit) of
        Some err \<Rightarrow> Inl err
      | None \<Rightarrow>
          (let snap =
             \<lparr>GeneratedAt = now,
              Markdown = [],
              Companies = fetched (ListAllCompanies client limit),
              Sites = fetched (ListAllSites client limit),
              Devices = fetched (ListAllDevices client limit),
              KBs = fetched (ListAllKBs client limit),
              Contacts = fetched (ListAllContacts client limit),
              Agreements = fetched (ListAllAgreements client limit),
              IPNetworks = fetched (ListAllIPNetworks client limit),
              Documents = fetched (ListAllDocuments client limit),
              Accounts = fetched (ListAllAccounts client limit),
              Facilities = fetched (ListAllFacilities client limit),
              Cabinets = fetched (ListAllCabinets client limit),
              Configurations = fetched (ListAllConfigurations client limit)\<rparr>
           in Inr (snap\<lparr>Markdown := buildMarkdown snap\<rparr>)))"

section \<open>The cache (package cache)\<close>

text \<open>
  The cache: its configuration, the records its logger has written, and the slot
  \<^verbatim>\<open>current\<close>, an atomic pointer that is \<open>None\<close> while nil. The client is an argument of each
  operation that builds, since the answers of the remote service change from one build
  to the next. A build never reads the slot and the slot is only written by one atomic
  \<^verbatim>\<open>Store\<close> after a build has returned, so a run of the cache with overlapping builds is a
  sequence of operations in the order of their stores.
\<close>

record Cache =
  limitPerEntity :: int
  refreshInterval :: int
  logger :: "log_record list"
  current :: "Snapshot option"

definition snapshot_counts :: "Snapshot \<Rightarrow> (string \<times> log_value) list" where
  "snapshot_counts snap =
     [(''companies'', LInt (int (length (Companies snap)))),
      (''sites'', LInt (int (length (Sites snap)))),
      (''devices'', LInt (int (length (Devices snap)))),
      (''kbs'', LInt (int (length (KBs snap)))),
      (''contacts'', LInt (int (length (Contacts snap)))),
      (''agreements'', LInt (int (length (Agreements snap)))),
      (''ip_networks'', LInt (int (length (IPNetworks snap)))),
      (''documents'', LInt (int (length (Documents snap)))),
      (''accounts'', LInt (int (length (Accounts snap)))),
      (''facilities'', LInt (int (length (Facilities snap)))),
      (''cabinets'', LInt (int (length (Cabinets snap)))),
      (''configurations'', LInt (int (length (Configurations snap))))]"

definition New ::
  "Client \<Rightarrow> int \<Rightarrow> int \<Rightarrow> log_record list \<Rightarrow> kind list \<Rightarrow> Time \<Rightarrow> error + Cache" where
  "New client limit interval logged finished now =
     (case build client limit finished now of
        Inl err \<Rightarrow> Inl (Wrapped ''initial snapshot build'' err)
      | Inr snap \<Rightarrow>
          Inr \<lparr>limitPerEntity = limit, refreshInterval = interval,
               logger = logged @ [LogRecord LevelInfo ''initial snapshot built''
                                 (snapshot_counts snap)],
               current = Some snap\<rparr>)"

definition Get :: "Cache \<Rightarrow> Snapshot option" where
  "Get c = current c"

definition Refresh ::
  "Cache \<Rightarrow> Client \<Rightarrow> kind list \<Rightarrow> Time \<Rightarrow> (error + Snapshot) \<times> Cache" where
  "Refresh c client finished now =
     (case build client (limitPerEntity c) finished now of
        Inl err \<Rightarrow> (Inl err, c)
      | Inr snap \<Rightarrow>
          (Inr snap,
           c\<lparr>current := Some snap,
             logger := logger c @ [LogRecord LevelInfo ''snapshot refreshed manually''
                                      (snapshot_counts snap)]\<rparr>))"

text \<open>
  The goroutine of \<^verbatim>\<open>StartBackgroundRefresh\<close>. \<open>background_tick\<close> is the body of the case
  \<^verbatim>\<open><-ticker.C\<close>; \<open>background_loop\<close> runs over the events its \<^verbatim>\<open>select\<close> receives, one after
  the other: a tick (with the client as it answers then, the order of completion of that
  build and the clock) or the end of the context, on which it returns.
\<close>

definition background_tick :: "Cache \<Rightarrow> Client \<Rightarrow> kind list \<Rightarrow> Time \<Rightarrow> Cache" where
  "background_tick c client finished now =
     (let c = c\<lparr>logger := logger c
                 @ [LogRecord LevelInfo ''background snapshot refresh started'' []]\<rparr> in
      case build client (limitPerEntity c) finished now of
        Inl err \<Rightarrow>
          c\<lparr>logger := logger c @ [LogRecord LevelError ''background snapshot refresh failed''
                                     [(''error'', LErr err)]]\<rparr>
      | Inr snap \<Rightarrow>
          c\<lparr>current := Some snap,
            logger := logger c @ [LogRecord LevelInfo ''background snapshot refresh complete''
                                     (snapshot_counts snap)]\<rparr>)"

datatype bg_event = CtxDone | Tick Client "kind list" Time

fun background_loop :: "Cache \<Rightarrow> bg_event list \<Rightarrow> Cache" where
  "background_loop c [] = c"
| "background_loop c (CtxDone # evs) = c"
| "background_loop c (Tick client finished now # evs) =
     background_loop (background_tick c client finished now) evs"

text \<open>
  The operations that write the slot of a cache in use, and a run of them.
\<close>

datatype cache_op = ManualRefresh Client "kind list" Time | BackgroundTick Client "kind list" Time

fun op_build :: "int \<Rightarrow> cache_op \<Rightarrow> error + Snapshot" where
  "op_build limit (ManualRefresh client finished now) = build client limit finished now"
| "op_build limit (BackgroundTick client finished now) = build client limit finished now"

fun apply_op :: "Cache \<Rightarrow> cache_op \<Rightarrow> Cache" where
  "apply_op c (ManualRefresh client finished now) = snd (Refresh c client finished now)"
| "apply_op c (BackgroundTick client finished now) = background_tick c client finished now"

definition run_ops :: "Cache \<Rightarrow> cache_op list \<Rightarrow> Cache" where
  "run_ops c ops = foldl apply_op c ops"

text \<open>
  Two clients and a cache for the scenarios: a remote service that answers every kind
  (with the example account as its only item), the same service with the sites endpoint
  failing, and a cache that holds the example snapshot.
\<close>

definition ok_client :: Client where
  "ok_client =
     \<lparr>ListAllCompanies = (\<lambda>n. Inr []), ListAllSites = (\<lambda>n. Inr []),
      ListAllDevices = (\<lambda>n. Inr []), ListAllKBs = (\<lambda>n. Inr []),
      ListAllContacts = (\<lambda>n. Inr []), ListAllAgreements = (\<lambda>n. Inr []),
      ListAllIPNetworks = (\<lambda>n. Inr []), ListAllDocuments = (\<lambda>n. Inr []),
      ListAllAccounts = (\<lambda>n. Inr [example_account]), ListAllFacilities = (\<lambda>n. Inr []),
      ListAllCabinets = (\<lambda>n. Inr []), ListAllConfigurations = (\<lambda>n. Inr [])\<rparr>"

definition sites_down :: Client where
  "sites_down = ok_client\<lparr>ListAllSites := (\<lambda>n. Inl (RemoteError ''GET /api/2.0/sites/ 500''))\<rparr>"

definition ready_cache :: Cache where
  "ready_cache =
     \<lparr>limitPerEntity = 1000, refreshInterval = 1800000000000, logger = [],
      current = Some example_snapshot\<rparr>"


section \<open>One iteration of the pagination loop\<close>

lemma listAll_loop_stop:
  assumes "srv sent \<lparr>req_path = path,
              req_opts = Some (opts\<lparr>Limit := pageSize, Offset := offset\<rparr>)\<rparr> = Inr (items, tot)"
    and "offset + int (length items) \<ge> tot \<or> offset + int (length items) \<ge> maxItems
           \<or> length items = 0"
  shows "listAll_loop srv path opts maxItems all offset sent =
           Some (Inr (all @ items), sent @ [\<lparr>req_path = path,
              req_opts = Some (opts\<lparr>Limit := pageSize, Offset := offset\<rparr>)\<rparr>])"
  using assms by (subst listAll_loop.simps) (simp add: listPage_def)

lemma listAll_loop_continue:
  assumes "srv sent \<lparr>req_path = path,
              req_opts = Some (opts\<lparr>Limit := pageSize, Offset := offset\<rparr>)\<rparr> = Inr (items, tot)"
    and "\<not> (offset + int (length items) \<ge> tot \<or> offset + int (length items) \<ge> maxItems
           \<or> length items = 0)"
  shows "listAll_loop srv path opts maxItems all offset sent =
           listAll_loop srv path opts maxItems (all @ items) (offset + int (length items))
             (sent @ [\<lparr>req_path = path,
                req_opts = Some (opts\<lparr>Limit := pageSize, Offset := offset\<rparr>)\<rparr>])"
  using assms by (subst listAll_loop.simps) (simp add: listPage_def)

lemma listAll_loop_error:
  assumes "srv sent \<lparr>req_path = path,
              req_opts = Some (opts\<lparr>Limit := pageSize, Offset := offset\<rparr>)\<rparr> = Inl e"
  shows "listAll_loop srv path opts maxItems all offset sent =
           Some (Inl e, sent @ [\<lparr>req_path = path,
              req_opts = Some (opts\<lparr>Limit := pageSize, Offset := offset\<rparr>)\<rparr>])"
  using assms by (subst listAll_loop.simps) (simp add: listPage_def)

section \<open>Termination of the pagination loop\<close>

text \<open>
  The loop and the rule agree step by step. A continuing iteration has received at
  least one item and has \<open>offset < maxItems\<close> afterwards, so \<open>maxItems - offset\<close> is
  positive and strictly smaller than before: the induction is on that distance, and it
  bounds the number of requests.
\<close>

lemma page_request_eq:
  "\<lparr>req_path = path, req_opts = Some (opts\<lparr>Limit := pageSize, Offset := offset\<rparr>)\<rparr>
     = page_request path opts offset"
  by (simp add: page_request_def pageSize_def)

lemma listAll_loop_unfold:
  "listAll_loop srv path opts maxItems all offset sent =
     (case srv sent (page_request path opts offset) of
        Inl err \<Rightarrow> Some (Inl err, sent @ [page_request path opts offset])
      | Inr (items, tot) \<Rightarrow>
          if offset + int (length items) \<ge> tot \<or> offset + int (length items) \<ge> maxItems
             \<or> length items = 0
          then Some (Inr (all @ items), sent @ [page_request path opts offset])
          else listAll_loop srv path opts maxItems (all @ items) (offset + int (length items))
                 (sent @ [page_request path opts offset]))"
  by (subst listAll_loop.simps)
     (simp add: listPage_def page_request_eq Let_def split: sum.splits prod.splits)

lemma pagination_listAll_loop:
  "pagination srv path opts maxItems all offset sent r sent'
   \<Longrightarrow> listAll_loop srv path opts maxItems all offset sent = Some (r, sent')"
proof (induction rule: pagination.induct)
  case (failed sent offset err acc)
  then show ?case by (subst listAll_loop_unfold) simp
next
  case (last_page sent offset items tot acc)
  then show ?case by (subst listAll_loop_unfold) auto
next
  case (next_page sent offset items tot acc r sent')
  then show ?case by (subst listAll_loop_unfold) auto
qed

lemma loop_error:
  "srv sent (page_request path opts offset) = Inl e
   \<Longrightarrow> listAll_loop srv path opts maxItems all offset sent
         = Some (Inl e, sent @ [page_request path opts offset])"
  by (subst listAll_loop_unfold) simp

lemma loop_stop:
  "srv sent (page_request path opts offset) = Inr (items, tot)
   \<Longrightarrow> offset + int (length items) \<ge> tot \<or> offset + int (length items) \<ge> maxItems
         \<or> items = []
   \<Longrightarrow> listAll_loop srv path opts maxItems all offset sent
         = Some (Inr (all @ items), sent @ [page_request path opts offset])"
  by (subst listAll_loop_unfold) simp

lemma loop_continue:
  "srv sent (page_request path opts offset) = Inr (items, tot)
   \<Longrightarrow> \<not> (offset + int (length items) \<ge> tot \<or> offset + int (length items) \<ge> maxItems
         \<or> items = [])
   \<Longrightarrow> listAll_loop srv path opts maxItems all offset sent
         = listAll_loop srv path opts maxItems (all @ items) (offset + int (length items))
             (sent @ [page_request path opts offset])"
  by (subst listAll_loop_unfold) simp

lemma listAll_loop_pagination:
  "\<exists>r sent'. listAll_loop srv path opts maxItems all offset sent = Some (r, sent')
      \<and> pagination srv path opts maxItems all offset sent r sent'
      \<and> length sent' \<le> length sent + max 1 (nat (maxItems - offset))"
proof (induction "nat (maxItems - offset)" arbitrary: all offset sent rule: less_induct)
  case less
  let ?rq = "page_request path opts offset"
  show ?case
  proof (cases "srv sent ?rq")
    case (Inl e)
    have "listAll_loop srv path opts maxItems all offset sent = Some (Inl e, sent @ [?rq])"
      using Inl by (rule loop_error)
    moreover have "pagination srv path opts maxItems all offset sent (Inl e) (sent @ [?rq])"
      using Inl by (rule pagination.failed)
    moreover have "length (sent @ [?rq]) \<le> length sent + max 1 (nat (maxItems - offset))"
      by simp
    ultimately show ?thesis by blast
  next
    case (Inr pg)
    obtain items tot where pg: "pg = (items, tot)" by (cases pg)
    from Inr pg have resp: "srv sent ?rq = Inr (items, tot)" by simp
    let ?off = "offset + int (length items)"
    show ?thesis
    proof (cases "?off \<ge> tot \<or> ?off \<ge> maxItems \<or> items = []")
      case True
      have "listAll_loop srv path opts maxItems all offset sent
                   = Some (Inr (all @ items), sent @ [?rq])"
        using resp True by (rule loop_stop)
      moreover have "pagination srv path opts maxItems all offset sent
                       (Inr (all @ items)) (sent @ [?rq])"
        using resp True by (rule pagination.last_page)
      moreover have "length (sent @ [?rq]) \<le> length sent + max 1 (nat (maxItems - offset))"
        by simp
      ultimately show ?thesis by blast
    next
      case False
      then have c1: "?off < tot" and c2: "?off < maxItems" and c3: "items \<noteq> []"
        by simp_all
      from c3 have pos_len: "0 < int (length items)" by simp
      with c2 have lt: "nat (maxItems - ?off) < nat (maxItems - offset)" by linarith
      from less[OF lt, of "all @ items" "sent @ [?rq]"]
      obtain r sent' where
        r: "listAll_loop srv path opts maxItems (all @ items) ?off (sent @ [?rq])
              = Some (r, sent')"
        and p: "pagination srv path opts maxItems (all @ items) ?off (sent @ [?rq]) r sent'"
        and b: "length sent' \<le> length (sent @ [?rq]) + max 1 (nat (maxItems - ?off))"
        by blast
      have "listAll_loop srv path opts maxItems all offset sent
              = listAll_loop srv path opts maxItems (all @ items) ?off (sent @ [?rq])"
        using resp False by (rule loop_continue)
      with r have "listAll_loop srv path opts maxItems all offset sent = Some (r, sent')"
        by simp
      moreover have "pagination srv path opts maxItems all offset sent r sent'"
        using resp c1 c2 c3 p by (rule pagination.next_page)
      moreover have "length sent' \<le> length sent + max 1 (nat (maxItems - offset))"
      proof -
        from c2 have pos: "1 \<le> nat (maxItems - ?off)" by linarith
        from b have "length sent' \<le> length sent + 1 + max 1 (nat (maxItems - ?off))"
          by simp
        with pos lt show ?thesis by linarith
      qed
      ultimately show ?thesis by blast
    qed
  qed
qed

lemma pagination_unique:
  "pagination srv path opts maxItems all offset sent r sent'
   \<Longrightarrow> pagination srv path opts maxItems all offset sent r' s'
   \<Longrightarrow> r' = r \<and> s' = sent'"
proof -
  assume "pagination srv path opts maxItems all offset sent r sent'"
  then have a: "listAll_loop srv path opts maxItems all offset sent = Some (r, sent')"
    by (rule pagination_listAll_loop)
  assume "pagination srv path opts maxItems all offset sent r' s'"
  then have "listAll_loop srv path opts maxItems all offset sent = Some (r', s')"
    by (rule pagination_listAll_loop)
  with a show ?thesis by simp
qed

text \<open>
  Claim C8. \<^verbatim>\<open>listAll\<close> returns for every remote service, whatever pages and totals it
  reports and however they depend on the requests made before: the result is never
  \<open>None\<close>. What it returns, and the requests it has sent by then, are exactly what the
  pagination rule determines from the empty accumulator and offset 0: it stops at the
  first error, or at the first page after which the accumulated count has reached the
  reported total or \<^verbatim>\<open>maxItems\<close>, or that is empty, and at no page before. It sends at most
  \<open>max 1 maxItems\<close> requests, because every page it continues after has added an item and
  left the count below \<^verbatim>\<open>maxItems\<close>.
\<close>

theorem listAll_terminates:
  "\<exists>r sent'.
      listAll srv path opts maxItems sent = Some (r, sent')
      \<and> pagination srv path (case opts of None \<Rightarrow> emptyListOptions | Some p \<Rightarrow> p)
            maxItems [] 0 sent r sent'
      \<and> (\<forall>r' s'. pagination srv path (case opts of None \<Rightarrow> emptyListOptions | Some p \<Rightarrow> p)
                     maxItems [] 0 sent r' s' \<longrightarrow> r' = r \<and> s' = sent')
      \<and> length sent' \<le> length sent + max 1 (nat maxItems)"
proof -
  define dflt where "dflt = (case opts of None \<Rightarrow> emptyListOptions | Some p \<Rightarrow> p)"
  from listAll_loop_pagination[of srv path dflt maxItems "[]" 0 sent]
  obtain r sent' where l: "listAll_loop srv path dflt maxItems [] 0 sent = Some (r, sent')"
    and p: "pagination srv path dflt maxItems [] 0 sent r sent'"
    and b: "length sent' \<le> length sent + max 1 (nat (maxItems - 0))"
    by blast
  have u: "\<forall>r' s'. pagination srv path dflt maxItems [] 0 sent r' s' \<longrightarrow> r' = r \<and> s' = sent'"
    using pagination_unique[OF p] by blast
  from l have e: "listAll srv path opts maxItems sent = Some (r, sent')"
    by (simp add: listAll_def dflt_def)
  from b have b': "length sent' \<le> length sent + max 1 (nat maxItems)" by simp
  from e p u b' show ?thesis unfolding dflt_def by blast
qed

text \<open>A service with no items: one request, the empty page ends the run.\<close>

theorem listAll_terminates_witness:
  "\<exists>r sent'.
      listAll empty_service ''/api/2.0/categories/kb/'' None 500 [] = Some (r, sent')
      \<and> pagination empty_service ''/api/2.0/categories/kb/'' emptyListOptions 500 [] 0 [] r sent'
      \<and> r = Inr [] \<and> length sent' = 1"
proof -
  have resp: "empty_service [] (page_request ''/api/2.0/categories/kb/'' emptyListOptions 0)
                = Inr ([], 0)"
    by (simp add: empty_service_def)
  have p: "pagination empty_service ''/api/2.0/categories/kb/'' emptyListOptions 500 [] 0 []
             (Inr ([] @ [])) ([] @ [page_request ''/api/2.0/categories/kb/'' emptyListOptions 0])"
    using resp by (rule pagination.last_page) simp
  have "\<exists>r sent'.
      listAll empty_service ''/api/2.0/categories/kb/'' None 500 [] = Some (r, sent')
      \<and> pagination empty_service ''/api/2.0/categories/kb/'' emptyListOptions 500 [] 0 [] r sent'
      \<and> (\<forall>r' s'. pagination empty_service ''/api/2.0/categories/kb/'' emptyListOptions
                     500 [] 0 [] r' s' \<longrightarrow> r' = r \<and> s' = sent')
      \<and> length sent' \<le> length ([] :: PageRequest list) + max 1 (nat 500)"
    using listAll_terminates[of empty_service "''/api/2.0/categories/kb/''" None 500 "[]"]
    by (simp only: option.case)
  then obtain r sent' where
    l: "listAll empty_service ''/api/2.0/categories/kb/'' None 500 [] = Some (r, sent')"
    and q: "pagination empty_service ''/api/2.0/categories/kb/'' emptyListOptions 500 [] 0 [] r sent'"
    and u: "\<forall>r' s'. pagination empty_service ''/api/2.0/categories/kb/'' emptyListOptions 500 [] 0 [] r' s'
              \<longrightarrow> r' = r \<and> s' = sent'"
    by blast
  from u p have "Inr ([] @ []) = r
      \<and> [] @ [page_request ''/api/2.0/categories/kb/'' emptyListOptions 0] = sent'"
    by blast
  then have "r = Inr []" and "length sent' = 1" by auto
  with l q show ?thesis by blast
qed

section \<open>Pagination against the synthetic service\<close>

lemma synthetic_loop:
  "k \<le> T \<Longrightarrow>
   \<exists>sent'. listAll_loop (synthetic T) path opts maxItems [0..<k] (int k) sent
        = Some (Inr [0..<min T (k + 100 * pages_from T maxItems k)], sent')
      \<and> length sent' = length sent + pages_from T maxItems k"
proof (induction "nat (min (int T) maxItems) - k" arbitrary: k sent rule: less_induct)
  case less
  let ?m = "nat (min (int T) maxItems)"
  let ?rq = "\<lparr>req_path = path,
              req_opts = Some (opts\<lparr>Limit := pageSize, Offset := int k\<rparr>)\<rparr>"
  let ?k' = "min T (k + 100)"
  have page: "synthetic T sent ?rq = Inr ([k..<?k'], int T)"
    by (simp add: synthetic_def pageSize_def)
  have app: "[0..<k] @ [k..<?k'] = [0..<?k']"
    using less.prems upt_add_eq_append[of 0 k "?k' - k"] by simp
  have len: "int k + int (length [k..<?k']) = int ?k'"
    using less.prems by simp
  show ?case
  proof (cases "int ?k' \<ge> int T \<or> int ?k' \<ge> maxItems \<or> length [k..<?k'] = 0")
    case True
    then have j: "pages_from T maxItems k = 1"
      using less.prems unfolding pages_from_def by (auto simp: min_def split: if_splits)
    have "listAll_loop (synthetic T) path opts maxItems [0..<k] (int k) sent
            = Some (Inr ([0..<k] @ [k..<?k']), sent @ [?rq])"
      by (rule listAll_loop_stop[where srv = "synthetic T" and tot = "int T", OF page])
         (use True len in presburger)
    then have "listAll_loop (synthetic T) path opts maxItems [0..<k] (int k) sent
            = Some (Inr [0..<?k'], sent @ [?rq])"
      by (simp only: app)
    then show ?thesis using j by simp
  next
    case False
    then have k': "?k' = k + 100" and lt: "k + 100 < T" and ltm: "int (k + 100) < maxItems"
      by (auto simp: min_def split: if_splits)
    have dec: "?m - (k + 100) < ?m - k" using lt ltm by linarith
    have j: "pages_from T maxItems k = 1 + pages_from T maxItems (k + 100)"
      using lt ltm unfolding pages_from_def by (simp add: min_def) linarith
    from less.hyps[OF dec, of "sent @ [?rq]"] lt
    obtain sent' where
      r: "listAll_loop (synthetic T) path opts maxItems [0..<k + 100] (int (k + 100)) (sent @ [?rq])
            = Some (Inr [0..<min T (k + 100 + 100 * pages_from T maxItems (k + 100))], sent')"
      and n: "length sent' = length (sent @ [?rq]) + pages_from T maxItems (k + 100)"
      by auto
    have "listAll_loop (synthetic T) path opts maxItems [0..<k] (int k) sent
            = listAll_loop (synthetic T) path opts maxItems ([0..<k] @ [k..<?k'])
                (int k + int (length [k..<?k'])) (sent @ [?rq])"
      by (rule listAll_loop_continue[where srv = "synthetic T" and tot = "int T", OF page])
         (use False len in presburger)
    also have "\<dots> = listAll_loop (synthetic T) path opts maxItems [0..<k + 100]
                (int (k + 100)) (sent @ [?rq])"
      using app len k' by (simp only:)
    finally have "listAll_loop (synthetic T) path opts maxItems [0..<k] (int k) sent
            = Some (Inr [0..<min T (k + 100 + 100 * pages_from T maxItems (k + 100))], sent')"
      using r by simp
    then show ?thesis using j n by (simp add: algebra_simps)
  qed
qed

lemma ceil_div_100: "nat \<lceil>real m / 100\<rceil> = (m + 99) div 100"
proof -
  have "\<lceil>real m / 100\<rceil> = \<lceil>of_int (int m) / (of_int 100 :: real)\<rceil>" by simp
  also have "\<dots> = - (- int m div 100)" by (simp only: ceiling_divide_eq_div)
  also have "\<dots> = int ((m + 99) div 100)" by (simp add: zdiv_int)
  finally show ?thesis by simp
qed

lemma listAll_synthetic:
  "\<exists>sent'. listAll (synthetic T) path opts maxItems sent
        = Some (Inr [0..<min T (100 * pages_from T maxItems 0)], sent')
      \<and> length sent' = length sent + pages_from T maxItems 0"
  using synthetic_loop[of 0 T path _ maxItems sent] by (simp add: listAll_def)

text \<open>
  Claim C3, as amended. Against the synthetic service with declared total \<open>T\<close>, for a
  budget \<open>maxItems \<ge> 1\<close> that is a multiple of the page size 100 or is not below \<open>T\<close>,
  \<^verbatim>\<open>listAll\<close> returns exactly the first \<open>min T maxItems\<close> items and sends
  \<open>max 1 \<lceil>min T maxItems / 100\<rceil>\<close> page requests: the first page is always requested, so an
  empty collection costs one request, not none.
\<close>

theorem listAll_synthetic_count:
  assumes "1 \<le> maxItems" and "int T \<le> maxItems \<or> 100 dvd maxItems"
  shows "\<exists>sent'. listAll (synthetic T) path opts maxItems sent
             = Some (Inr [0..<min T (nat maxItems)], sent')
           \<and> length [0..<min T (nat maxItems)] = min T (nat maxItems)
           \<and> length sent' =
               length sent + max 1 (nat \<lceil>real (min T (nat maxItems)) / 100\<rceil>)"
proof -
  have m: "nat (min (int T) maxItems) = min T (nat maxItems)" using assms(1) by linarith
  have j: "pages_from T maxItems 0 = max 1 (nat \<lceil>real (min T (nat maxItems)) / 100\<rceil>)"
    by (simp add: pages_from_def m ceil_div_100)
  have f: "min T (100 * pages_from T maxItems 0) = min T (nat maxItems)"
  proof (cases "int T \<le> maxItems")
    case True
    then show ?thesis unfolding pages_from_def m by (simp add: min_def) linarith
  next
    case False
    with assms obtain q where q: "maxItems = 100 * q" by (auto simp: dvd_def)
    with assms(1) have "1 \<le> q" by linarith
    then show ?thesis using False unfolding pages_from_def m q
      by (simp add: min_def nat_mult_distrib)
  qed
  from listAll_synthetic[of T path opts maxItems sent]
  obtain sent' where
    r: "listAll (synthetic T) path opts maxItems sent
          = Some (Inr [0..<min T (100 * pages_from T maxItems 0)], sent')"
    and n: "length sent' = length sent + pages_from T maxItems 0"
    by blast
  from r have "listAll (synthetic T) path opts maxItems sent
          = Some (Inr [0..<min T (nat maxItems)], sent')"
    by (simp only: f)
  moreover from n have "length sent' =
      length sent + max 1 (nat \<lceil>real (min T (nat maxItems)) / 100\<rceil>)"
    by (simp only: j)
  ultimately show ?thesis by simp
qed

text \<open>The scenario of the specification: 250 devices, budget 1000, three requests.\<close>

theorem listAll_synthetic_count_witness:
  "(1::int) \<le> 1000 \<and> (int 250 \<le> 1000 \<or> (100::int) dvd 1000) \<and>
   (\<exists>sent'. listAll (synthetic 250) ''/api/2.0/devices/'' None 1000 []
             = Some (Inr [0..<250], sent') \<and> length sent' = 3)"
proof -
  have h1: "(1::int) \<le> 1000" by simp
  have h2: "int 250 \<le> 1000 \<or> (100::int) dvd 1000" by simp
  have c: "nat \<lceil>real (250::nat) / 100\<rceil> = 3" by (simp add: ceil_div_100)
  from listAll_synthetic_count[OF h1 h2, of "''/api/2.0/devices/''" None "[]"] c
  show ?thesis by simp
qed

text \<open>
  The claim as first stated fails twice. An empty collection (\<open>T = 0\<close>) costs one request
  where \<open>\<lceil>0 / 100\<rceil> = 0\<close>. With 250 items and a budget of 150 the loop stops only after
  the second full page, and returns 200 items where \<open>min 250 150 = 150\<close>: the result is
  never cut back to the budget.
\<close>

theorem listAll_synthetic_count_counterexample:
  "(\<exists>sent'. listAll (synthetic 0) ''/api/2.0/devices/'' None 1000 [] = Some (Inr [], sent')
       \<and> length sent' = 1 \<and> nat \<lceil>real (min (0::nat) 1000) / 100\<rceil> = 0)
   \<and> (\<exists>items sent'. listAll (synthetic 250) ''/api/2.0/devices/'' None 150 []
              = Some (Inr items, sent') \<and> length items = 200 \<and> min (250::nat) 150 = 150)"
proof -
  have p0: "pages_from 0 1000 0 = 1" by (simp add: pages_from_def)
  have p1: "pages_from 250 150 0 = 2" by (simp add: pages_from_def)
  from listAll_synthetic[of 0 "''/api/2.0/devices/''" None 1000 "[]"] p0
  have a: "\<exists>sent'. listAll (synthetic 0) ''/api/2.0/devices/'' None 1000 []
             = Some (Inr [], sent') \<and> length sent' = 1"
    by simp
  from listAll_synthetic[of 250 "''/api/2.0/devices/''" None 150 "[]"] p1
  have b: "\<exists>sent'. listAll (synthetic 250) ''/api/2.0/devices/'' None 150 []
             = Some (Inr [0..<200], sent')"
    by auto
  then have b': "\<exists>items sent'. listAll (synthetic 250) ''/api/2.0/devices/'' None 150 []
              = Some (Inr items, sent') \<and> length items = 200"
    by (metis diff_zero length_upt)
  from a b' show ?thesis by simp
qed

section \<open>The API key middleware\<close>

lemma HasPrefix_append: "HasPrefix (p @ s) p"
  by (simp add: HasPrefix_def)

lemma HasPrefix_split: "HasPrefix s p \<Longrightarrow> s = p @ TrimPrefix s p"
  by (simp add: HasPrefix_def TrimPrefix_def) (metis append_take_drop_id)

lemma TrimPrefix_append: "TrimPrefix (p @ s) p = s"
  by (simp add: TrimPrefix_def HasPrefix_def)

text \<open>
  Claim C10. The middleware calls the wrapped handler exactly when the first
  \<^verbatim>\<open>Authorization\<close> value is \<^verbatim>\<open>Bearer \<close> followed by the configured key, and then the
  outcome is the handler's. A header without the prefix is answered with 401
  Unauthorized, a header with the prefix and another token with 403 Forbidden; in both
  cases the outcome is the middleware's own answer and holds nothing of the handler.
\<close>

theorem apiKeyMiddleware_auth:
  "((\<exists>x. fst (apiKeyMiddleware key next r) = Next x)
      \<longleftrightarrow> Header_Get (Header r) ''Authorization'' = ''Bearer '' @ key)
   \<and> (Header_Get (Header r) ''Authorization'' = ''Bearer '' @ key
        \<longrightarrow> fst (apiKeyMiddleware key next r) = Next (next r))
   \<and> (\<not> HasPrefix (Header_Get (Header r) ''Authorization'') ''Bearer ''
        \<longrightarrow> fst (apiKeyMiddleware key next r) = HttpError ''Unauthorized'' 401)
   \<and> (HasPrefix (Header_Get (Header r) ''Authorization'') ''Bearer ''
        \<and> Header_Get (Header r) ''Authorization'' \<noteq> ''Bearer '' @ key
        \<longrightarrow> fst (apiKeyMiddleware key next r) = HttpError ''Forbidden'' 403)"
proof -
  let ?h = "Header_Get (Header r) ''Authorization''"
  show ?thesis
  proof (cases "HasPrefix ?h ''Bearer ''")
    case False
    then have "?h \<noteq> ''Bearer '' @ key" using HasPrefix_append[of "''Bearer ''" key] by auto
    with False show ?thesis by (simp add: apiKeyMiddleware_def)
  next
    case True
    show ?thesis
    proof (cases "TrimPrefix ?h ''Bearer '' = key")
      case eq: True
      with HasPrefix_split[OF True] have "?h = ''Bearer '' @ key" by simp
      with True eq show ?thesis by (simp add: apiKeyMiddleware_def Let_def)
    next
      case ne: False
      then have "?h \<noteq> ''Bearer '' @ key" using TrimPrefix_append[of "''Bearer ''" key] by auto
      with True ne show ?thesis by (simp add: apiKeyMiddleware_def Let_def)
    qed
  qed
qed

text \<open>
  Three requests against the key \<open>s3cr3t\<close>: the right header, a header without the
  prefix, and a wrong token.
\<close>

theorem apiKeyMiddleware_auth_witness:
  "fst (apiKeyMiddleware ''s3cr3t'' (\<lambda>r. RemoteAddr r)
          \<lparr>Header = [''Authorization'' \<mapsto> [''Bearer s3cr3t'']], RemoteAddr = ''10.0.0.1''\<rparr>)
     = Next ''10.0.0.1''
   \<and> fst (apiKeyMiddleware ''s3cr3t'' (\<lambda>r. RemoteAddr r)
          \<lparr>Header = [''Authorization'' \<mapsto> [''s3cr3t'']], RemoteAddr = ''10.0.0.1''\<rparr>)
     = HttpError ''Unauthorized'' 401
   \<and> fst (apiKeyMiddleware ''s3cr3t'' (\<lambda>r. RemoteAddr r)
          \<lparr>Header = [''Authorization'' \<mapsto> [''Bearer guess'']], RemoteAddr = ''10.0.0.1''\<rparr>)
     = HttpError ''Forbidden'' 403"
proof -
  let ?next = "\<lambda>r::Request. RemoteAddr r"
  let ?ok = "\<lparr>Header = [''Authorization'' \<mapsto> [''Bearer s3cr3t'']], RemoteAddr = ''10.0.0.1''\<rparr>"
  let ?bare = "\<lparr>Header = [''Authorization'' \<mapsto> [''s3cr3t'']], RemoteAddr = ''10.0.0.1''\<rparr>"
  let ?bad = "\<lparr>Header = [''Authorization'' \<mapsto> [''Bearer guess'']], RemoteAddr = ''10.0.0.1''\<rparr>"
  have a: "Header_Get (Header ?ok) ''Authorization'' = ''Bearer '' @ ''s3cr3t''"
    by (simp add: Header_Get_def)
  have b: "\<not> HasPrefix (Header_Get (Header ?bare) ''Authorization'') ''Bearer ''"
    by (simp add: Header_Get_def HasPrefix_def)
  have c: "HasPrefix (Header_Get (Header ?bad) ''Authorization'') ''Bearer ''
           \<and> Header_Get (Header ?bad) ''Authorization'' \<noteq> ''Bearer '' @ ''s3cr3t''"
    by (simp add: Header_Get_def HasPrefix_def)
  from apiKeyMiddleware_auth[of "''s3cr3t''" ?next ?ok] a
  have 1: "fst (apiKeyMiddleware ''s3cr3t'' ?next ?ok) = Next ''10.0.0.1''" by simp
  from apiKeyMiddleware_auth[of "''s3cr3t''" ?next ?bare] b
  have 2: "fst (apiKeyMiddleware ''s3cr3t'' ?next ?bare) = HttpError ''Unauthorized'' 401"
    by blast
  from apiKeyMiddleware_auth[of "''s3cr3t''" ?next ?bad] c
  have 3: "fst (apiKeyMiddleware ''s3cr3t'' ?next ?bad) = HttpError ''Forbidden'' 403"
    by blast
  from 1 2 3 show ?thesis by blast
qed

section \<open>The page limit of list_entities\<close>

lemma ReplaceAll_single_empty: "ReplaceAll s [c] [] = filter (\<lambda>x. x \<noteq> c) s"
proof (induction s)
  case Nil
  show ?case by (subst ReplaceAll.simps) simp
next
  case (Cons a s)
  show ?case
    by (subst ReplaceAll.simps) (simp add: HasPrefix_def Cons.IH)
qed

text \<open>
  The limit \<^verbatim>\<open>ListEntities\<close> works with is 50 for a caller's limit of zero or less, 500
  for one above 500 and the caller's value otherwise. Every successful result echoes it,
  and for the entity types served by a single \<^verbatim>\<open>listPage\<close> call the one request sent
  carries it.
\<close>

lemma ListEntities_paged_limit:
  assumes "eff = (if inp_Limit input \<le> 0 then 50
                  else if inp_Limit input > 500 then 500 else inp_Limit input)"
  shows "1 \<le> eff \<and> eff \<le> 500
    \<and> (\<forall>p sent'. ListEntities srv lower input sent = Some (Inr (ToolText p), sent')
          \<longrightarrow> res_Limit p = eff)
    \<and> (\<forall>path label.
          entity_endpoint (lower (ReplaceAll (inp_EntityType input) ''_'' []))
            = Some (True, path, label)
          \<longrightarrow> (\<exists>res opts. ListEntities srv lower input sent
                  = Some (res, sent @ [\<lparr>req_path = path, req_opts = Some opts\<rparr>])
                \<and> Limit opts = eff))"
proof (intro conjI allI impI)
  show "1 \<le> eff" "eff \<le> 500" using assms by auto
next
  fix p sent'
  assume "ListEntities srv lower input sent = Some (Inr (ToolText p), sent')"
  then show "res_Limit p = eff"
    unfolding ListEntities_def Let_def using assms
    by (auto split: option.splits prod.splits sum.splits if_splits)
next
  fix path label
  assume "entity_endpoint (lower (ReplaceAll (inp_EntityType input) ''_'' []))
            = Some (True, path, label)"
  then show "\<exists>res opts. ListEntities srv lower input sent
                  = Some (res, sent @ [\<lparr>req_path = path, req_opts = Some opts\<rparr>])
                \<and> Limit opts = eff"
    unfolding ListEntities_def Let_def listPage_def using assms
    by (auto split: option.splits prod.splits sum.splits)
qed

lemma synthetic_page:
  "synthetic T sent (page_request path opts (int k)) = Inr ([k..<min T (k + 100)], int T)"
  by (simp add: synthetic_def page_request_def)

lemma listAll_synthetic_250:
  "listAll (synthetic 250) path None 500 [] =
     Some (Inr [0..<250],
           [page_request path emptyListOptions 0, page_request path emptyListOptions 100,
            page_request path emptyListOptions 200])"
proof -
  let ?l = "listAll_loop (synthetic 250) path emptyListOptions 500"
  let ?r0 = "page_request path emptyListOptions 0"
  let ?r1 = "page_request path emptyListOptions 100"
  let ?r2 = "page_request path emptyListOptions 200"
  have p0: "synthetic 250 [] ?r0 = Inr ([0..<100], 250)"
    using synthetic_page[of 250 "[]" path emptyListOptions 0] by simp
  have p1: "synthetic 250 [?r0] ?r1 = Inr ([100..<200], 250)"
    using synthetic_page[of 250 "[?r0]" path emptyListOptions 100] by simp
  have p2: "synthetic 250 [?r0, ?r1] ?r2 = Inr ([200..<250], 250)"
    using synthetic_page[of 250 "[?r0, ?r1]" path emptyListOptions 200] by simp
  have "?l [] 0 [] = ?l ([] @ [0..<100]) (0 + int (length [0..<100::nat])) ([] @ [?r0])"
    by (rule loop_continue[where srv = "synthetic 250" and tot = 250, OF p0]) simp
  also have "\<dots> = ?l [0..<100] 100 [?r0]" by simp
  also have "\<dots> = ?l ([0..<100] @ [100..<200]) (100 + int (length [100..<200::nat]))
                       ([?r0] @ [?r1])"
    by (rule loop_continue[where srv = "synthetic 250" and tot = 250, OF p1]) simp
  also have "\<dots> = ?l [0..<200] 200 [?r0, ?r1]"
    using upt_add_eq_append[of 0 100 100] by simp
  also have "\<dots> = Some (Inr ([0..<200] @ [200..<250]), [?r0, ?r1] @ [?r2])"
    by (rule loop_stop[where srv = "synthetic 250" and tot = 250, OF p2]) simp
  also have "\<dots> = Some (Inr [0..<250], [?r0, ?r1, ?r2])"
    using upt_add_eq_append[of 0 200 50] by simp
  finally show ?thesis by (simp add: listAll_def)
qed

text \<open>
  Claim C9: the limit sent to the remote service and echoed in the result is the
  caller's, brought into the range 1 to 500. For the entity type \<^verbatim>\<open>kb_category\<close> (and
  likewise \<^verbatim>\<open>device_type\<close>) the code does otherwise. Asked for 10 categories from offset 7
  of a collection of 250, it sends three requests of 100 items each, from offset 0, and
  returns all 250 categories, while the result echoes the limit 10 and the offset 7.
\<close>

theorem ListEntities_kb_category_ignores_limit:
  "inp_Limit kb_category_page = 10 \<and> inp_Offset kb_category_page = 7
   \<and> ListEntities (synthetic 250) (\<lambda>s. s) kb_category_page [] =
       Some (Inr (ToolText \<lparr>res_Total = 250, res_Offset = 7, res_Limit = 10,
                             res_Items = [0..<250]\<rparr>),
             [page_request ''/api/2.0/categories/kb/'' emptyListOptions 0,
              page_request ''/api/2.0/categories/kb/'' emptyListOptions 100,
              page_request ''/api/2.0/categories/kb/'' emptyListOptions 200])
   \<and> req_opts (page_request ''/api/2.0/categories/kb/'' emptyListOptions 0)
       = Some (emptyListOptions\<lparr>Limit := 100, Offset := 0\<rparr>)"
proof -
  have k: "entity_endpoint (ReplaceAll (inp_EntityType kb_category_page) ''_'' [])
        = Some (False, ''/api/2.0/categories/kb/'', ''list KB categories'')"
    by (simp add: kb_category_page_def ReplaceAll_single_empty entity_endpoint_def)
  have "ListEntities (synthetic 250) (\<lambda>s. s) kb_category_page [] =
       Some (Inr (ToolText \<lparr>res_Total = 250, res_Offset = 7, res_Limit = 10,
                             res_Items = [0..<250]\<rparr>),
             [page_request ''/api/2.0/categories/kb/'' emptyListOptions 0,
              page_request ''/api/2.0/categories/kb/'' emptyListOptions 100,
              page_request ''/api/2.0/categories/kb/'' emptyListOptions 200])"
    unfolding ListEntities_def Let_def k
    using listAll_synthetic_250[of "''/api/2.0/categories/kb/''"]
    by (simp add: kb_category_page_def del: upt_Suc)
  then show ?thesis by (simp add: kb_category_page_def page_request_def)
qed

section \<open>Redaction\<close>

lemma render_account_credentials:
  "render_account (a\<lparr>ac_Password := p, ac_TwoFACode := c\<rparr>) = render_account a"
  by (simp add: render_account_def)

text \<open>
  Claim C4. The rendered text does not depend on the credential fields: whatever the
  password and the second-factor code of each account are replaced by (the empty string
  included), \<^verbatim>\<open>buildMarkdown\<close> returns the same text. Accounts are the only records of a
  snapshot with such fields; device credentials and additional credentials are not part
  of a snapshot at all.
\<close>

theorem buildMarkdown_redaction:
  "buildMarkdown
     (s\<lparr>Accounts := map (\<lambda>a. a\<lparr>ac_Password := pw a, ac_TwoFACode := code a\<rparr>) (Accounts s)\<rparr>)
   = buildMarkdown s"
proof -
  have "render_account \<circ> (\<lambda>a. a\<lparr>ac_Password := pw a, ac_TwoFACode := code a\<rparr>)
        = render_account"
    by (rule ext) (simp add: render_account_credentials)
  then show ?thesis
    by (simp add: buildMarkdown_def summary_line_def optional_section_def render_section_def)
qed

text \<open>The scenario: the account with password \<open>s3cr3t\<close> renders as it does with none.\<close>

theorem buildMarkdown_redaction_witness:
  "ac_Password example_account = str ''s3cr3t''
   \<and> buildMarkdown
        (example_snapshot\<lparr>Accounts :=
           map (\<lambda>a. a\<lparr>ac_Password := [], ac_TwoFACode := []\<rparr>) (Accounts example_snapshot)\<rparr>)
      = buildMarkdown example_snapshot"
  using buildMarkdown_redaction[where s = example_snapshot and pw = "\<lambda>a. []"
      and code = "\<lambda>a. []"]
  by (simp add: example_account_def)

section \<open>Truncation of free text\<close>

lemma set_stripTags: "set (stripTags b s) \<subseteq> set s - {60, 62}"
  by (induction s arbitrary: b) auto

lemma set_Fields: "w \<in> set (Fields s) \<Longrightarrow> set w \<subseteq> set s"
proof (induction s arbitrary: w rule: Fields.induct)
  case (1 s)
  show ?case
  proof (cases "dropWhile IsSpace s")
    case Nil
    with "1.prems" show ?thesis by (subst (asm) Fields.simps) simp
  next
    case (Cons r rs)
    have sub: "set (r # rs) \<subseteq> set s"
      using set_dropWhileD[of _ IsSpace s] Cons by auto
    from "1.prems" Cons
    consider "w = takeWhile (\<lambda>x. \<not> IsSpace x) (r # rs)"
      | "w \<in> set (Fields (dropWhile (\<lambda>x. \<not> IsSpace x) (r # rs)))"
      by (subst (asm) Fields.simps) auto
    then show ?thesis
    proof cases
      case 1
      then have "set w \<subseteq> set (r # rs)" using set_takeWhileD[of _ _ "r # rs"] by blast
      with sub show ?thesis by blast
    next
      case 2
      from "1.IH"[OF Cons 2]
      have "set w \<subseteq> set (dropWhile (\<lambda>x. \<not> IsSpace x) (r # rs))" .
      then have "set w \<subseteq> set (r # rs)"
        using set_dropWhileD[of _ "\<lambda>x. \<not> IsSpace x" "r # rs"] by blast
      with sub show ?thesis by blast
    qed
  qed
qed

lemma set_Join: "set (Join ws sep) \<subseteq> (\<Union>w\<in>set ws. set w) \<union> set sep"
  by (induction ws sep rule: Join.induct) auto

lemma clean_html_no_angle: "60 \<notin> set (clean_html s) \<and> 62 \<notin> set (clean_html s)"
proof -
  have "set (clean_html s) \<subseteq> set (stripTags False
          (ReplaceAll (ReplaceAll (ReplaceAll (ReplaceAll (ReplaceAll s (str ''<br>'') (str '' ''))
             (str ''<br/>'') (str '' '')) (str ''<br />'') (str '' '')) (str ''</p>'') (str '' ''))
             (str ''</div>'') (str '' ''))) \<union> {32}"
    (is "_ \<subseteq> set (stripTags False ?t) \<union> _")
    unfolding clean_html_def Let_def
    using set_Join[of "Fields (stripTags False ?t)" "str '' ''"]
          set_Fields[of _ "stripTags False ?t"]
    by (auto simp: str_def)
  with set_stripTags[of False ?t] show ?thesis by auto
qed

lemma utf8_len_append: "utf8_len (a @ b) = utf8_len a + utf8_len b"
  by (simp add: utf8_len_def)

lemma ReplaceAll_absent: "old \<noteq> [] \<Longrightarrow> hd old \<notin> set s \<Longrightarrow> ReplaceAll s old new = s"
proof (induction s)
  case Nil
  show ?case by (subst ReplaceAll.simps) simp
next
  case (Cons a s)
  have "\<not> HasPrefix (a # s) old"
  proof
    assume "HasPrefix (a # s) old"
    then have "take (length old) (a # s) = old" by (simp add: HasPrefix_def)
    with Cons.prems(1) have "hd old = a" by (cases old) auto
    with Cons.prems(2) show False by simp
  qed
  with Cons show ?case by (subst ReplaceAll.simps) simp
qed

lemma stripTags_plain: "60 \<notin> set s \<Longrightarrow> 62 \<notin> set s \<Longrightarrow> stripTags False s = s"
  by (induction s) auto

lemma Fields_single:
  assumes "s \<noteq> []" and "\<forall>r\<in>set s. \<not> IsSpace r"
  shows "Fields s = [s]"
proof -
  from assms obtain r rs where s: "s = r # rs" by (cases s) auto
  with assms have d: "dropWhile IsSpace (r # rs) = r # rs" by simp
  have t: "takeWhile (\<lambda>x. \<not> IsSpace x) (r # rs) = r # rs"
    using assms(2) s by (simp add: takeWhile_eq_all_conv)
  have e: "dropWhile (\<lambda>x. \<not> IsSpace x) (r # rs) = []"
    using assms(2) s by (simp add: dropWhile_eq_Nil_conv)
  have n: "Fields [] = []" by (subst Fields.simps) simp
  have "Fields (r # rs) = [r # rs]"
    by (subst Fields.simps) (simp only: d t e n list.case)
  with s show ?thesis by simp
qed

lemma clean_html_plain:
  assumes "s \<noteq> []" and "\<forall>r\<in>set s. r \<noteq> 60 \<and> r \<noteq> 62 \<and> \<not> IsSpace r"
  shows "clean_html s = s"
proof -
  have r: "\<And>old new. old \<noteq> [] \<Longrightarrow> hd old = 60 \<Longrightarrow> ReplaceAll s old new = s"
    using assms(2) by (intro ReplaceAll_absent) auto
  have s: "stripTags False s = s" using assms(2) by (intro stripTags_plain) auto
  have f: "Fields s = [s]" using assms by (intro Fields_single) auto
  show ?thesis
    unfolding clean_html_def Let_def
    by (simp add: r str_def s f)
qed

lemma HasPrefix_iff: "HasPrefix s p \<longleftrightarrow> (\<exists>r. s = p @ r)"
proof
  assume "HasPrefix s p"
  then have "s = p @ drop (length p) s"
    by (simp add: HasPrefix_def) (metis append_take_drop_id)
  then show "\<exists>r. s = p @ r" ..
next
  assume "\<exists>r. s = p @ r"
  then show "HasPrefix s p" by (auto simp: HasPrefix_def)
qed

lemma ReplaceAll_Nil: "ReplaceAll [] old new = []"
  by (subst ReplaceAll.simps) simp

lemma ReplaceAll_match:
  "old \<noteq> [] \<Longrightarrow> ReplaceAll (old @ r) old new = new @ ReplaceAll r old new"
  by (subst ReplaceAll.simps) (simp add: HasPrefix_def)

lemma ReplaceAll_skip:
  "\<not> HasPrefix (x # r) old \<Longrightarrow> ReplaceAll (x # r) old new = x # ReplaceAll r old new"
  by (subst ReplaceAll.simps) simp

lemma ReplaceAll_plain:
  "60 \<notin> set a \<Longrightarrow> ReplaceAll (a @ r) (60 # old) new = a @ ReplaceAll r (60 # old) new"
proof (induction a)
  case Nil
  show ?case by simp
next
  case (Cons x a)
  then have "\<not> HasPrefix (x # a @ r) (60 # old)" by (auto simp: HasPrefix_iff)
  with Cons show ?case by (simp add: ReplaceAll_skip)
qed

lemma tag_end_unique:
  "62 \<notin> set t \<Longrightarrow> 62 \<notin> set u \<Longrightarrow> t @ 62 # r = u @ 62 # r' \<Longrightarrow> t = u \<and> r = r'"
proof (induction t arbitrary: u)
  case Nil
  then show ?case by (cases u) auto
next
  case (Cons x t)
  then show ?case by (cases u) auto
qed

lemma ReplaceAll_tag:
  assumes "angle_free t" and "angle_free u"
  shows "ReplaceAll (60 # t @ 62 # r) (60 # u @ [62]) new =
           (if t = u then new else 60 # t @ [62]) @ ReplaceAll r (60 # u @ [62]) new"
proof (cases "t = u")
  case True
  have "ReplaceAll ((60 # u @ [62]) @ r) (60 # u @ [62]) new
          = new @ ReplaceAll r (60 # u @ [62]) new"
    by (rule ReplaceAll_match) simp
  with True show ?thesis by simp
next
  case False
  have "\<not> HasPrefix (60 # t @ 62 # r) (60 # u @ [62])"
  proof
    assume "HasPrefix (60 # t @ 62 # r) (60 # u @ [62])"
    then obtain r' where "60 # t @ 62 # r = (60 # u @ [62]) @ r'"
      unfolding HasPrefix_iff by blast
    then have "t @ 62 # r = u @ 62 # r'" by simp
    with assms have "t = u" using tag_end_unique[of t u r r'] by (simp add: angle_free_def)
    with False show False by simp
  qed
  then have "ReplaceAll (60 # t @ 62 # r) (60 # u @ [62]) new
               = 60 # ReplaceAll ((t @ [62]) @ r) (60 # u @ [62]) new"
    by (simp add: ReplaceAll_skip)
  also have "\<dots> = 60 # (t @ [62]) @ ReplaceAll r (60 # u @ [62]) new"
    using assms(1) by (subst ReplaceAll_plain) (simp_all add: angle_free_def)
  finally show ?thesis using False by simp
qed

lemma ReplaceAll_markup:
  assumes "angle_free u"
  shows "well_formed segs \<Longrightarrow>
         ReplaceAll (markup segs) (60 # u @ [62]) (str '' '') = markup (map (replace_tag u) segs)"
proof (induction segs)
  case Nil
  show ?case by (simp add: markup_def ReplaceAll_Nil)
next
  case (Cons seg segs)
  then have wf: "well_formed segs" and ok: "segment_ok seg" by (simp_all add: well_formed_def)
  from Cons.IH[OF wf]
  have ih: "ReplaceAll (concat (map segment_text segs)) (60 # u @ [62]) (str '' '')
              = concat (map segment_text (map (replace_tag u) segs))"
    by (simp add: markup_def)
  show ?case
  proof (cases seg)
    case (Plain p)
    with ok have "60 \<notin> set p" by (simp add: angle_free_def)
    then show ?thesis using Plain ih by (simp add: markup_def ReplaceAll_plain)
  next
    case (Tag t)
    with ok have "angle_free t" by simp
    from ReplaceAll_tag[OF this assms, of "concat (map segment_text segs)" "str '' ''"]
    show ?thesis using Tag ih by (simp add: markup_def)
  qed
qed

lemma well_formed_replace_tag: "well_formed segs \<Longrightarrow> well_formed (map (replace_tag u) segs)"
proof (induction segs)
  case Nil
  show ?case by (simp add: well_formed_def)
next
  case (Cons seg segs)
  then show ?case
    by (cases seg) (auto simp: well_formed_def angle_free_def str_def)
qed

lemma stripTags_inside:
  "62 \<notin> set t \<Longrightarrow> stripTags True (t @ 62 # r) = stripTags False r"
  by (induction t) auto

lemma stripTags_outside:
  "angle_free a \<Longrightarrow> stripTags False (a @ r) = a @ stripTags False r"
  by (induction a) (auto simp: angle_free_def)

lemma stripTags_markup:
  "well_formed segs \<Longrightarrow> stripTags False (markup segs) = concat (map strip_segment segs)"
proof (induction segs)
  case Nil
  show ?case by (simp add: markup_def)
next
  case (Cons seg segs)
  then have wf: "well_formed segs" and ok: "segment_ok seg" by (simp_all add: well_formed_def)
  from Cons.IH[OF wf]
  have ih: "stripTags False (concat (map segment_text segs)) = concat (map strip_segment segs)"
    by (simp add: markup_def)
  show ?case
  proof (cases seg)
    case (Plain p)
    with ok show ?thesis using ih by (simp add: markup_def stripTags_outside)
  next
    case (Tag t)
    with ok have "62 \<notin> set t" by (simp add: angle_free_def)
    then show ?thesis using Tag ih by (simp add: markup_def stripTags_inside)
  qed
qed


lemma strip_replace_tags:
  "strip_segment (replace_tag (str ''/div'') (replace_tag (str ''/p'') (replace_tag (str ''br /'')
     (replace_tag (str ''br/'') (replace_tag (str ''br'') seg))))) = visible_text seg"
  by (cases seg) (auto simp: line_breaks_def str_def)

lemma clean_html_markup:
  assumes "well_formed segs"
  shows "clean_html (markup segs) = Join (Fields (concat (map visible_text segs))) (str '' '')"
proof -
  have p: "str ''<br>'' = 60 # str ''br'' @ [62]" "str ''<br/>'' = 60 # str ''br/'' @ [62]"
    "str ''<br />'' = 60 # str ''br /'' @ [62]" "str ''</p>'' = 60 # str ''/p'' @ [62]"
    "str ''</div>'' = 60 # str ''/div'' @ [62]"
    by (simp_all add: str_def)
  have a: "angle_free (str ''br'')" "angle_free (str ''br/'')" "angle_free (str ''br /'')"
    "angle_free (str ''/p'')" "angle_free (str ''/div'')"
    by (simp_all add: angle_free_def str_def)
  let ?s1 = "map (replace_tag (str ''br'')) segs"
  let ?s2 = "map (replace_tag (str ''br/'')) ?s1"
  let ?s3 = "map (replace_tag (str ''br /'')) ?s2"
  let ?s4 = "map (replace_tag (str ''/p'')) ?s3"
  let ?s5 = "map (replace_tag (str ''/div'')) ?s4"
  have w1: "well_formed ?s1" using assms by (rule well_formed_replace_tag)
  have w2: "well_formed ?s2" using w1 by (rule well_formed_replace_tag)
  have w3: "well_formed ?s3" using w2 by (rule well_formed_replace_tag)
  have w4: "well_formed ?s4" using w3 by (rule well_formed_replace_tag)
  have w5: "well_formed ?s5" using w4 by (rule well_formed_replace_tag)
  have r1: "ReplaceAll (markup segs) (str ''<br>'') (str '' '') = markup ?s1"
    unfolding p by (rule ReplaceAll_markup[OF a(1) assms])
  have r2: "ReplaceAll (markup ?s1) (str ''<br/>'') (str '' '') = markup ?s2"
    unfolding p by (rule ReplaceAll_markup[OF a(2) w1])
  have r3: "ReplaceAll (markup ?s2) (str ''<br />'') (str '' '') = markup ?s3"
    unfolding p by (rule ReplaceAll_markup[OF a(3) w2])
  have r4: "ReplaceAll (markup ?s3) (str ''</p>'') (str '' '') = markup ?s4"
    unfolding p by (rule ReplaceAll_markup[OF a(4) w3])
  have r5: "ReplaceAll (markup ?s4) (str ''</div>'') (str '' '') = markup ?s5"
    unfolding p by (rule ReplaceAll_markup[OF a(5) w4])
  have st: "stripTags False (markup ?s5) = concat (map strip_segment ?s5)"
    using w5 by (rule stripTags_markup)
  have v: "map strip_segment ?s5 = map visible_text segs"
    by (simp add: strip_replace_tags)
  have "clean_html (markup segs) = Join (Fields (stripTags False (markup ?s5))) (str '' '')"
    unfolding clean_html_def Let_def by (simp only: r1 r2 r3 r4 r5)
  then show ?thesis by (simp only: st v)
qed


lemma ctx_here: "\<exists>pre post. \<forall>d. T d @ B = pre @ T d @ post"
  by (rule exI[of _ "[]"], rule exI[of _ B]) simp

lemma ctx_skip:
  assumes "\<exists>pre post. \<forall>d. R d = pre @ T d @ post"
  shows "\<exists>pre post. \<forall>d. x @ R d = pre @ T d @ post"
proof -
  from assms obtain pre post where "\<forall>d. R d = pre @ T d @ post" by blast
  then have "\<forall>d. x @ R d = (x @ pre) @ T d @ post" by simp
  then show ?thesis by blast
qed

lemma device_heading_Description:
  "device_typeName (dv\<lparr>d_Description := t\<rparr>) = device_typeName dv"
  "device_locationCtx (dv\<lparr>d_Description := t\<rparr>) = device_locationCtx dv"
  by (simp_all add: device_typeName_def device_locationCtx_def split: option.splits)

lemma budget_co_Description:
  "\<exists>pre post. \<forall>t. render_company (co\<lparr>co_Description := t\<rparr>)
        = pre @ truncated ''Description'' t 300 @ post"
  by (simp add: render_company_def) ((rule ctx_here | rule ctx_skip)+)

lemma budget_co_Notes:
  "\<exists>pre post. \<forall>t. render_company (co\<lparr>co_Notes := t\<rparr>)
        = pre @ truncated ''Notes'' t 300 @ post"
  by (simp add: render_company_def) ((rule ctx_here | rule ctx_skip)+)

lemma budget_co_RemoteAccessNotes:
  "\<exists>pre post. \<forall>t. render_company (co\<lparr>co_RemoteAccessNotes := t\<rparr>)
        = pre @ truncated ''Remote Access Notes'' t 300 @ post"
  by (simp add: render_company_def) ((rule ctx_here | rule ctx_skip)+)

lemma budget_si_Description:
  "\<exists>pre post. \<forall>t. render_site (si\<lparr>si_Description := t\<rparr>)
        = pre @ truncated ''Description'' t 300 @ post"
  by (simp add: render_site_def) ((rule ctx_here | rule ctx_skip)+)

lemma budget_d_Description:
  "\<exists>pre post. \<forall>t. render_device (dv\<lparr>d_Description := t\<rparr>)
        = pre @ truncated ''Description'' t 300 @ post"
  by (simp add: render_device_def device_heading_Description) ((rule ctx_here | rule ctx_skip)+)

lemma budget_kb_Description:
  "\<exists>pre post. \<forall>t. render_kb (kb\<lparr>kb_Description := t\<rparr>)
        = pre @ truncated ''Content'' t 500 @ post"
  by (simp add: render_kb_def) ((rule ctx_here | rule ctx_skip)+)

lemma budget_ag_Description:
  "\<exists>pre post. \<forall>t. render_agreement (ag\<lparr>ag_Description := t\<rparr>)
        = pre @ truncated ''Description'' t 200 @ post"
  by (simp add: render_agreement_def) ((rule ctx_here | rule ctx_skip)+)

lemma budget_net_Description:
  "\<exists>pre post. \<forall>t. render_ipnetwork (net\<lparr>net_Description := t\<rparr>)
        = pre @ truncated ''Notes'' t 200 @ post"
  by (simp add: render_ipnetwork_def split del: if_split cong: if_cong) ((rule ctx_here | rule ctx_skip)+)

lemma budget_ac_Description:
  "\<exists>pre post. \<forall>t. render_account (ac\<lparr>ac_Description := t\<rparr>)
        = pre @ truncated ''Description'' t 300 @ post"
  by (simp add: render_account_def Let_def) ((rule ctx_here | rule ctx_skip)+)

lemma budget_ac_Notes:
  "\<exists>pre post. \<forall>t. render_account (ac\<lparr>ac_Notes := t\<rparr>)
        = pre @ truncated ''Notes'' t 300 @ post"
  by (simp add: render_account_def Let_def) ((rule ctx_here | rule ctx_skip)+)

lemma budget_f_Description:
  "\<exists>pre post. \<forall>t. render_facility (fa\<lparr>f_Description := t\<rparr>)
        = pre @ truncated ''Description'' t 300 @ post"
  by (simp add: render_facility_def) ((rule ctx_here | rule ctx_skip)+)

lemma budget_f_Notes:
  "\<exists>pre post. \<forall>t. render_facility (fa\<lparr>f_Notes := t\<rparr>)
        = pre @ truncated ''Notes'' t 300 @ post"
  by (simp add: render_facility_def) ((rule ctx_here | rule ctx_skip)+)

lemma budget_cab_Description:
  "\<exists>pre post. \<forall>t. render_cabinet (cab\<lparr>cab_Description := t\<rparr>)
        = pre @ truncated ''Description'' t 300 @ post"
  by (simp add: render_cabinet_def) ((rule ctx_here | rule ctx_skip)+)

lemma budget_cab_Notes:
  "\<exists>pre post. \<forall>t. render_cabinet (cab\<lparr>cab_Notes := t\<rparr>)
        = pre @ truncated ''Notes'' t 300 @ post"
  by (simp add: render_cabinet_def) ((rule ctx_here | rule ctx_skip)+)

lemma budget_cfg_Notes:
  "\<exists>pre post. \<forall>t. render_configuration (cfg\<lparr>cfg_Notes := t\<rparr>)
        = pre @ truncated ''Notes'' t 300 @ post"
  by (simp add: render_configuration_def) ((rule ctx_here | rule ctx_skip)+)

lemma document_description_raw:
  "\<exists>pre post. \<forall>t. render_document (doc\<lparr>doc_Description := t\<rparr>) = pre @ t @ post"
  by (simp add: render_document_def with_id_def) ((rule ctx_here | rule ctx_skip)+)

lemma truncate_text_cap_runes: "truncate_text s n = cap_runes n (clean_html s)"
  by (simp add: truncate_text_def cap_runes_def Let_def)

lemma truncate_text_markup:
  "well_formed segs \<Longrightarrow>
   truncate_text (markup segs) n
     = cap_runes n (Join (Fields (concat (map visible_text segs))) (str '' ''))"
  by (simp add: truncate_text_cap_runes clean_html_markup)

lemma truncate_text_no_angle: "60 \<notin> set (truncate_text s n) \<and> 62 \<notin> set (truncate_text s n)"
proof -
  have e: "ellipsis \<noteq> 60" "ellipsis \<noteq> 62" by (simp_all add: ellipsis_def)
  have t: "set (take n (clean_html s)) \<subseteq> set (clean_html s)" by (rule set_take_subset)
  show ?thesis
    using clean_html_no_angle[of s] e t by (auto simp: truncate_text_def Let_def)
qed

lemma truncate_text_length: "length (truncate_text s n) \<le> n + 1"
  by (simp add: truncate_text_def Let_def)

lemma truncate_text_bytes:
  "length (clean_html s) > n \<Longrightarrow>
   utf8_len (truncate_text s n) = utf8_len (take n (clean_html s)) + 3"
  by (simp add: truncate_text_def Let_def utf8_len_append)
     (simp add: utf8_len_def utf8_width_def ellipsis_def)

text \<open>
  Claim C5, as amended. \<^verbatim>\<open>truncate\<close> with budget \<open>n\<close> returns the cleaned text capped at
  \<open>n\<close> code points: whole when it has at most \<open>n\<close>, however many bytes those take, and
  otherwise its first \<open>n\<close> code points, each entire, followed by the marker U+2026 (three
  bytes in UTF-8). Of a well-formed marked-up text the cleaned text is the visible text
  (tags removed, the five line-break forms turned into spaces) with every run of white
  space collapsed to one space; of any text it holds no angle bracket. Each description
  or notes attribute that the renderer writes as a bullet enters the rendering of its
  item only through \<^verbatim>\<open>truncate\<close>, under the label and with the budget of its field: 300
  for the descriptions and notes of companies, sites, devices, accounts, facilities,
  cabinets and configurations, 500 for the content of a KB article, 200 for the
  description of an agreement and the notes of an IP network. The description of a
  document is part of its heading and is written as it is, neither cleaned nor capped.
\<close>

theorem renderer_truncation:
  "(well_formed segs \<longrightarrow>
      truncate_text (markup segs) n
        = cap_runes n (Join (Fields (concat (map visible_text segs))) (str '' '')))
   \<and> truncate_text s n = cap_runes n (clean_html s)
   \<and> 60 \<notin> set (truncate_text s n) \<and> 62 \<notin> set (truncate_text s n)
   \<and> length (truncate_text s n) \<le> n + 1
   \<and> (length (clean_html s) > n \<longrightarrow>
         utf8_len (truncate_text s n) = utf8_len (take n (clean_html s)) + 3)
   \<and> (\<exists>pre post. \<forall>t. render_company (co\<lparr>co_Description := t\<rparr>)
        = pre @ truncated ''Description'' t 300 @ post)
   \<and> (\<exists>pre post. \<forall>t. render_company (co\<lparr>co_Notes := t\<rparr>)
        = pre @ truncated ''Notes'' t 300 @ post)
   \<and> (\<exists>pre post. \<forall>t. render_company (co\<lparr>co_RemoteAccessNotes := t\<rparr>)
        = pre @ truncated ''Remote Access Notes'' t 300 @ post)
   \<and> (\<exists>pre post. \<forall>t. render_site (si\<lparr>si_Description := t\<rparr>)
        = pre @ truncated ''Description'' t 300 @ post)
   \<and> (\<exists>pre post. \<forall>t. render_device (dv\<lparr>d_Description := t\<rparr>)
        = pre @ truncated ''Description'' t 300 @ post)
   \<and> (\<exists>pre post. \<forall>t. render_kb (kb\<lparr>kb_Description := t\<rparr>)
        = pre @ truncated ''Content'' t 500 @ post)
   \<and> (\<exists>pre post. \<forall>t. render_agreement (ag\<lparr>ag_Description := t\<rparr>)
        = pre @ truncated ''Description'' t 200 @ post)
   \<and> (\<exists>pre post. \<forall>t. render_ipnetwork (net\<lparr>net_Description := t\<rparr>)
        = pre @ truncated ''Notes'' t 200 @ post)
   \<and> (\<exists>pre post. \<forall>t. render_account (ac\<lparr>ac_Description := t\<rparr>)
        = pre @ truncated ''Description'' t 300 @ post)
   \<and> (\<exists>pre post. \<forall>t. render_account (ac\<lparr>ac_Notes := t\<rparr>)
        = pre @ truncated ''Notes'' t 300 @ post)
   \<and> (\<exists>pre post. \<forall>t. render_facility (fa\<lparr>f_Description := t\<rparr>)
        = pre @ truncated ''Description'' t 300 @ post)
   \<and> (\<exists>pre post. \<forall>t. render_facility (fa\<lparr>f_Notes := t\<rparr>)
        = pre @ truncated ''Notes'' t 300 @ post)
   \<and> (\<exists>pre post. \<forall>t. render_cabinet (cab\<lparr>cab_Description := t\<rparr>)
        = pre @ truncated ''Description'' t 300 @ post)
   \<and> (\<exists>pre post. \<forall>t. render_cabinet (cab\<lparr>cab_Notes := t\<rparr>)
        = pre @ truncated ''Notes'' t 300 @ post)
   \<and> (\<exists>pre post. \<forall>t. render_configuration (cfg\<lparr>cfg_Notes := t\<rparr>)
        = pre @ truncated ''Notes'' t 300 @ post)
   \<and> (\<exists>pre post. \<forall>t. render_document (doc\<lparr>doc_Description := t\<rparr>) = pre @ t @ post)"
proof -
  note budgets = budget_co_Description budget_co_Notes budget_co_RemoteAccessNotes budget_si_Description budget_d_Description budget_kb_Description budget_ag_Description budget_net_Description budget_ac_Description budget_ac_Notes budget_f_Description budget_f_Notes budget_cab_Description budget_cab_Notes budget_cfg_Notes document_description_raw
  show ?thesis
    using truncate_text_markup[of segs n] truncate_text_cap_runes[of s n]
      truncate_text_no_angle[of s n] truncate_text_length[of s n] truncate_text_bytes[of n s]
    by (intro conjI impI budgets) simp_all
qed

text \<open>
  A text with a paragraph and a line break, cut at 7 code points: the tags are gone, the
  line break is a space. And of 301 letters U+00E9 (two bytes each) the first 300 are
  kept, 600 bytes and the three of the marker.
\<close>

theorem renderer_truncation_witness:
  "well_formed example_markup
   \<and> markup example_markup = str ''<p>Hello<br>big   world</p>''
   \<and> truncate_text (str ''<p>Hello<br>big   world</p>'') 7 = str ''Hello b'' @ [ellipsis]
   \<and> length (clean_html (replicate 301 233)) > 300
   \<and> utf8_len (truncate_text (replicate 301 233) 300) = 603"
proof -
  have w: "well_formed example_markup"
    by (simp add: example_markup_def well_formed_def angle_free_def str_def)
  have m: "markup example_markup = str ''<p>Hello<br>big   world</p>''"
    by (simp add: example_markup_def markup_def str_def)
  have v: "concat (map visible_text example_markup) = str ''Hello big   world ''"
    by (simp add: example_markup_def line_breaks_def str_def)
  have f: "Join (Fields (str ''Hello big   world '')) (str '' '') = str ''Hello big world''"
    by (simp add: Fields.simps str_def IsSpace_def)
  have c: "clean_html (replicate 301 233) = replicate 301 233"
    by (rule clean_html_plain) (simp_all add: IsSpace_def)
  have l: "length (clean_html (replicate 301 233)) > 300" by (simp add: c)
  note t = renderer_truncation[where segs = example_markup and n = 7]
  from t w have "truncate_text (markup example_markup) 7
      = cap_runes 7 (Join (Fields (concat (map visible_text example_markup))) (str '' ''))"
    by blast
  then have a: "truncate_text (str ''<p>Hello<br>big   world</p>'') 7 = str ''Hello b'' @ [ellipsis]"
    unfolding m v f by (simp add: cap_runes_def str_def)
  note u = renderer_truncation[where s = "replicate 301 233" and n = 300]
  from u l have "utf8_len (truncate_text (replicate 301 233) 300)
      = utf8_len (take 300 (clean_html (replicate 301 233))) + 3"
    by blast
  then have b: "utf8_len (truncate_text (replicate 301 233) 300) = 603"
    unfolding c by (simp add: utf8_len_def utf8_width_def sum_list_replicate)
  from w m a l b show ?thesis by blast
qed

text \<open>
  The budget is not 300 everywhere: an agreement's description of 250 code points is cut
  after 200.
\<close>

theorem renderer_truncation_counterexample:
  "length (ag_Description long_agreement) = 250
   \<and> render_agreement long_agreement =
       str ''### Agreement ID: 1'' @ nl
       @ bullet ''Description'' (replicate 200 97 @ [ellipsis]) @ nl"
proof -
  have c: "clean_html (replicate 250 97) = replicate 250 97"
    by (rule clean_html_plain) (simp_all add: IsSpace_def)
  have t: "truncate_text (replicate 250 97) 200 = replicate 200 97 @ [ellipsis]"
    by (simp add: truncate_text_def c)
  have i: "itoa 1 = str ''1''" by (simp add: itoa_def digits.simps str_def)
  show ?thesis
    by (simp add: long_agreement_def render_agreement_def truncated_def t i typeName_def
        companyCtx_def bullet_ref_def nonempty_def str_def)
qed

section \<open>The build is all or nothing\<close>

lemma all_kinds_complete: "k \<in> set all_kinds"
  by (cases k) (simp_all add: all_kinds_def)

lemma mem_imp_Cons: "x \<in> set xs \<Longrightarrow> \<exists>y ys. xs = y # ys"
  by (cases xs) auto

lemma eg_Wait_None: "eg_Wait finished ret = None \<longleftrightarrow> (\<forall>k. ret k = None)"
proof
  assume n: "eg_Wait finished ret = None"
  show "\<forall>k. ret k = None"
  proof (rule ccontr)
    assume "\<not> (\<forall>k. ret k = None)"
    then obtain k where k: "ret k \<noteq> None" by blast
    then have "k \<in> set (filter (\<lambda>k. ret k \<noteq> None) (finished @ all_kinds))"
      using all_kinds_complete[of k] by simp
    then have "\<exists>j js. filter (\<lambda>k. ret k \<noteq> None) (finished @ all_kinds) = j # js"
      by (rule mem_imp_Cons)
    then obtain j js where f: "filter (\<lambda>k. ret k \<noteq> None) (finished @ all_kinds) = j # js"
      by blast
    then have "j \<in> set (filter (\<lambda>k. ret k \<noteq> None) (finished @ all_kinds))" by simp
    then have "ret j \<noteq> None" by auto
    with n f show False by (simp add: eg_Wait_def)
  qed
next
  assume "\<forall>k. ret k = None"
  then have "filter (\<lambda>k. ret k \<noteq> None) (finished @ all_kinds) = []" by simp
  then show "eg_Wait finished ret = None" by (simp add: eg_Wait_def)
qed

lemma eg_Wait_first:
  assumes "ret k \<noteq> None"
  shows "\<exists>k' err. eg_Wait finished ret = Some err \<and> ret k' = Some err
           \<and> k' \<in> set (finished @ all_kinds)
           \<and> (\<forall>j \<in> set (takeWhile (\<lambda>j. j \<noteq> k') (finished @ all_kinds)). ret j = None)"
proof -
  let ?ks = "finished @ all_kinds"
  have "k \<in> set (filter (\<lambda>k. ret k \<noteq> None) ?ks)"
    using assms all_kinds_complete[of k] by simp
  then have "\<exists>j js. filter (\<lambda>k. ret k \<noteq> None) ?ks = j # js"
    by (rule mem_imp_Cons)
  then obtain k' js where f: "filter (\<lambda>k. ret k \<noteq> None) ?ks = k' # js"
    by blast
  then obtain us vs where ks: "?ks = us @ k' # vs" and us: "\<forall>u\<in>set us. \<not> ret u \<noteq> None"
    and p: "ret k' \<noteq> None"
    unfolding filter_eq_Cons_iff by blast
  from p obtain err where err: "ret k' = Some err" by auto
  from us p have "k' \<notin> set us" by auto
  then have tw: "takeWhile (\<lambda>j. j \<noteq> k') (us @ k' # vs) = us"
    by (induction us) auto
  have "eg_Wait finished ret = Some err" using f err by (simp add: eg_Wait_def)
  moreover have "k' \<in> set ?ks" using ks by simp
  moreover have "\<forall>j \<in> set (takeWhile (\<lambda>j. j \<noteq> k') ?ks). ret j = None"
    using us tw ks by simp
  ultimately show ?thesis using err by blast
qed

text \<open>
  Claim C1. When the task of some kind fails, \<^verbatim>\<open>build\<close> returns an error and no snapshot.
  The error is the one returned by the first failing task in the order of completion:
  every task that returned before it had succeeded.
\<close>

theorem build_all_or_nothing:
  assumes "task client limit k \<noteq> None"
  shows "\<exists>k' err. build client limit finished now = Inl err
           \<and> task client limit k' = Some err
           \<and> k' \<in> set (finished @ all_kinds)
           \<and> (\<forall>j \<in> set (takeWhile (\<lambda>j. j \<noteq> k') (finished @ all_kinds)).
                 task client limit j = None)
           \<and> (\<forall>snap. build client limit finished now \<noteq> Inr snap)"
proof -
  from eg_Wait_first[where ret = "task client limit" and finished = finished, OF assms]
  obtain k' err where w: "eg_Wait finished (task client limit) = Some err"
    and e: "task client limit k' = Some err"
    and m: "k' \<in> set (finished @ all_kinds)"
    and f: "\<forall>j \<in> set (takeWhile (\<lambda>j. j \<noteq> k') (finished @ all_kinds)).
                 task client limit j = None"
    by blast
  from w have "build client limit finished now = Inl err" by (simp add: build_def)
  with e m f show ?thesis by auto
qed

lemma build_Inr:
  assumes "build client limit finished now = Inr snap"
  shows "(\<forall>k. task client limit k = None) \<and> Markdown snap = buildMarkdown snap
         \<and> GeneratedAt snap = now
         \<and> ListAllCompanies client limit = Inr (Companies snap)
         \<and> ListAllSites client limit = Inr (Sites snap)
         \<and> ListAllDevices client limit = Inr (Devices snap)
         \<and> ListAllKBs client limit = Inr (KBs snap)
         \<and> ListAllContacts client limit = Inr (Contacts snap)
         \<and> ListAllAgreements client limit = Inr (Agreements snap)
         \<and> ListAllIPNetworks client limit = Inr (IPNetworks snap)
         \<and> ListAllDocuments client limit = Inr (Documents snap)
         \<and> ListAllAccounts client limit = Inr (Accounts snap)
         \<and> ListAllFacilities client limit = Inr (Facilities snap)
         \<and> ListAllCabinets client limit = Inr (Cabinets snap)
         \<and> ListAllConfigurations client limit = Inr (Configurations snap)"
proof -
  from assms have w: "eg_Wait finished (task client limit) = None"
    by (auto simp: build_def split: option.splits)
  then have t: "\<And>k. task client limit k = None" by (simp add: eg_Wait_None)
  have r: "\<And>l r. wrap_error l r = None \<Longrightarrow> r = Inr (fetched r)"
    by (auto simp: wrap_error_def fetched_def split: sum.splits)
  note ts = t[of KCompanies] t[of KSites] t[of KDevices] t[of KKBs] t[of KContacts]
    t[of KAgreements] t[of KIPNetworks] t[of KDocuments] t[of KAccounts] t[of KFacilities]
    t[of KCabinets] t[of KConfigurations]
  from assms w have s: "snap = (let s0 =
             \<lparr>GeneratedAt = now,
              Markdown = [],
              Companies = fetched (ListAllCompanies client limit),
              Sites = fetched (ListAllSites client limit),
              Devices = fetched (ListAllDevices client limit),
              KBs = fetched (ListAllKBs client limit),
              Contacts = fetched (ListAllContacts client limit),
              Agreements = fetched (ListAllAgreements client limit),
              IPNetworks = fetched (ListAllIPNetworks client limit),
              Documents = fetched (ListAllDocuments client limit),
              Accounts = fetched (ListAllAccounts client limit),
              Facilities = fetched (ListAllFacilities client limit),
              Cabinets = fetched (ListAllCabinets client limit),
              Configurations = fetched (ListAllConfigurations client limit)\<rparr>
           in s0\<lparr>Markdown := buildMarkdown s0\<rparr>)"
    by (simp add: build_def)
  have md: "Markdown snap = buildMarkdown snap"
    unfolding s Let_def by (simp add: buildMarkdown_def summary_line_def)
  show ?thesis
    using t md ts[simplified task.simps, THEN r]
    unfolding s Let_def by simp
qed

lemma task_ok_client: "task ok_client n k = None"
  by (cases k) (simp_all add: ok_client_def wrap_error_def)

lemma task_sites_down:
  "task sites_down n k =
     (if k = KSites then Some (Wrapped ''list sites'' (RemoteError ''GET /api/2.0/sites/ 500''))
      else None)"
  by (cases k) (simp_all add: sites_down_def ok_client_def wrap_error_def)

lemma build_ok_client:
  "build ok_client n finished now =
     Inr (example_snapshot\<lparr>GeneratedAt := now,
            Markdown := buildMarkdown (example_snapshot\<lparr>GeneratedAt := now\<rparr>)\<rparr>)"
proof -
  have "eg_Wait finished (task ok_client n) = None"
    by (simp add: eg_Wait_None task_ok_client)
  then show ?thesis
    by (simp add: build_def Let_def ok_client_def fetched_def example_snapshot_def)
qed

lemma build_sites_down:
  "build sites_down n finished now
     = Inl (Wrapped ''list sites'' (RemoteError ''GET /api/2.0/sites/ 500''))"
proof -
  have h: "task sites_down n KSites \<noteq> None" by (subst task_sites_down) simp
  from eg_Wait_first[where ret = "task sites_down n" and finished = finished, OF h]
  show ?thesis by (auto simp: build_def task_sites_down split: if_splits)
qed

text \<open>The scenario: only the sites fetch fails, and the build fails with its error.\<close>

theorem build_all_or_nothing_witness:
  "task sites_down 1000 KSites \<noteq> None
   \<and> build sites_down 1000 [] (GeneratedAt example_snapshot)
       = Inl (Wrapped ''list sites'' (RemoteError ''GET /api/2.0/sites/ 500''))"
proof -
  have h: "task sites_down 1000 KSites \<noteq> None" by (subst task_sites_down) simp
  from build_all_or_nothing[OF h, of "[]" "GeneratedAt example_snapshot"]
  obtain k' err where b: "build sites_down 1000 [] (GeneratedAt example_snapshot) = Inl err"
    and t: "task sites_down 1000 k' = Some err"
    by blast
  from t have "err = Wrapped ''list sites'' (RemoteError ''GET /api/2.0/sites/ 500'')"
    by (simp add: task_sites_down split: if_splits)
  with b h show ?thesis by simp
qed

section \<open>A failed refresh leaves the published snapshot\<close>

text \<open>
  Claim C2. When the build fails, a manual refresh returns the error and the cache
  exactly as it was (nothing is stored, nothing is logged); a background tick logs the
  start and the error, leaves the slot as it was, and the loop goes on with the next
  event. A reader gets the same snapshot before and after either.
\<close>

theorem failed_refresh_keeps_snapshot:
  assumes "build client (limitPerEntity c) finished now = Inl err"
  shows "Refresh c client finished now = (Inl err, c)
    \<and> Get (snd (Refresh c client finished now)) = Get c
    \<and> Get (background_tick c client finished now) = Get c
    \<and> logger (background_tick c client finished now) =
          logger c @ [LogRecord LevelInfo ''background snapshot refresh started'' [],
                      LogRecord LevelError ''background snapshot refresh failed''
                        [(''error'', LErr err)]]
    \<and> background_loop c (Tick client finished now # evs) =
          background_loop (background_tick c client finished now) evs"
  using assms by (simp add: Refresh_def background_tick_def Get_def)

text \<open>The scenario: the sites fetch fails during a refresh of the ready cache.\<close>

theorem failed_refresh_keeps_snapshot_witness:
  "build sites_down (limitPerEntity ready_cache) [] (GeneratedAt example_snapshot)
     = Inl (Wrapped ''list sites'' (RemoteError ''GET /api/2.0/sites/ 500''))
   \<and> Refresh ready_cache sites_down [] (GeneratedAt example_snapshot)
     = (Inl (Wrapped ''list sites'' (RemoteError ''GET /api/2.0/sites/ 500'')), ready_cache)
   \<and> Get (background_tick ready_cache sites_down [] (GeneratedAt example_snapshot))
     = Some example_snapshot"
proof -
  have b: "build sites_down (limitPerEntity ready_cache) [] (GeneratedAt example_snapshot)
     = Inl (Wrapped ''list sites'' (RemoteError ''GET /api/2.0/sites/ 500''))"
    by (rule build_sites_down)
  have g: "Get ready_cache = Some example_snapshot" by (simp add: Get_def ready_cache_def)
  from failed_refresh_keeps_snapshot[OF b, of "[]"] b g show ?thesis by simp
qed

section \<open>The cache is always ready\<close>

lemma apply_op_limit: "limitPerEntity (apply_op c x) = limitPerEntity c"
  by (cases x) (auto simp: Refresh_def background_tick_def Let_def split: sum.splits)

lemma apply_op_current:
  "current (apply_op c x) =
     (case op_build (limitPerEntity c) x of Inl err \<Rightarrow> current c | Inr snap \<Rightarrow> Some snap)"
  by (cases x) (auto simp: Refresh_def background_tick_def Let_def split: sum.splits)

lemma run_ops_limit: "limitPerEntity (run_ops c ops) = limitPerEntity c"
  unfolding run_ops_def by (induction ops arbitrary: c) (simp_all add: apply_op_limit)

lemma run_ops_current:
  "current (run_ops c ops) = current c
   \<or> (\<exists>x\<in>set ops. \<exists>snap. op_build (limitPerEntity c) x = Inr snap
          \<and> current (run_ops c ops) = Some snap)"
  unfolding run_ops_def
proof (induction ops arbitrary: c)
  case Nil
  show ?case by simp
next
  case (Cons x xs)
  from Cons.IH[of "apply_op c x"] show ?case
  proof
    assume same: "current (foldl apply_op (apply_op c x) xs) = current (apply_op c x)"
    show ?thesis
    proof (cases "op_build (limitPerEntity c) x")
      case (Inl err)
      with same show ?thesis by (simp add: apply_op_current)
    next
      case (Inr snap)
      with same show ?thesis by (auto simp: apply_op_current)
    qed
  next
    assume "\<exists>y\<in>set xs. \<exists>snap. op_build (limitPerEntity (apply_op c x)) y = Inr snap
          \<and> current (foldl apply_op (apply_op c x) xs) = Some snap"
    then show ?thesis by (auto simp: apply_op_limit)
  qed
qed

text \<open>
  Claim C7. Once \<^verbatim>\<open>New\<close> has succeeded, after any run of manual refreshes and background
  ticks, failed or not, \<^verbatim>\<open>Get\<close> returns a snapshot (it reads the slot and nothing else, so
  no request is made). That snapshot is the result of a build in which every task
  succeeded, the initial one or one of the run, and it carries its own rendering.
\<close>

theorem cache_always_ready:
  assumes "New client limit interval logged finished now = Inr c"
  shows "\<exists>snap client' finished' now'.
           Get (run_ops c ops) = Some snap
           \<and> build client' limit finished' now' = Inr snap
           \<and> (\<forall>k. task client' limit k = None)
           \<and> Markdown snap = buildMarkdown snap
           \<and> ((client', finished', now') = (client, finished, now)
                \<or> ManualRefresh client' finished' now' \<in> set ops
                \<or> BackgroundTick client' finished' now' \<in> set ops)"
proof -
  from assms obtain snap0 where b: "build client limit finished now = Inr snap0"
    and c: "current c = Some snap0" and l: "limitPerEntity c = limit"
    by (auto simp: New_def split: sum.splits)
  from run_ops_current[of c ops] show ?thesis
  proof
    assume "current (run_ops c ops) = current c"
    with b c build_Inr[OF b] show ?thesis by (auto simp: Get_def)
  next
    assume "\<exists>x\<in>set ops. \<exists>snap. op_build (limitPerEntity c) x = Inr snap
              \<and> current (run_ops c ops) = Some snap"
    then obtain x snap where x: "x \<in> set ops" and ob: "op_build limit x = Inr snap"
      and cur: "current (run_ops c ops) = Some snap"
      using l by auto
    show ?thesis
    proof (cases x)
      case (ManualRefresh client' finished' now')
      with ob have b': "build client' limit finished' now' = Inr snap" by simp
      from build_Inr[OF b'] b' cur x ManualRefresh show ?thesis
        unfolding Get_def by blast
    next
      case (BackgroundTick client' finished' now')
      with ob have b': "build client' limit finished' now' = Inr snap" by simp
      from build_Inr[OF b'] b' cur x BackgroundTick show ?thesis
        unfolding Get_def by blast
    qed
  qed
qed

text \<open>
  A cache built from the healthy service, then a background tick and a manual refresh
  that both fail: a reader still gets a snapshot.
\<close>

theorem cache_always_ready_witness:
  "New ok_client 1000 1800000000000 [] [] (GeneratedAt example_snapshot)
     = Inr \<lparr>limitPerEntity = 1000, refreshInterval = 1800000000000,
            logger = [LogRecord LevelInfo ''initial snapshot built''
                        (snapshot_counts example_snapshot)],
            current = Some (example_snapshot\<lparr>Markdown := buildMarkdown example_snapshot\<rparr>)\<rparr>
   \<and> (\<exists>snap. Get (run_ops
              \<lparr>limitPerEntity = 1000, refreshInterval = 1800000000000,
               logger = [LogRecord LevelInfo ''initial snapshot built''
                           (snapshot_counts example_snapshot)],
               current = Some (example_snapshot\<lparr>Markdown := buildMarkdown example_snapshot\<rparr>)\<rparr>
              [BackgroundTick sites_down [] (GeneratedAt example_snapshot),
               ManualRefresh sites_down [] (GeneratedAt example_snapshot)]) = Some snap)"
proof -
  have e: "example_snapshot\<lparr>GeneratedAt := GeneratedAt example_snapshot\<rparr> = example_snapshot"
    by simp
  have n: "New ok_client 1000 1800000000000 [] [] (GeneratedAt example_snapshot)
     = Inr \<lparr>limitPerEntity = 1000, refreshInterval = 1800000000000,
            logger = [LogRecord LevelInfo ''initial snapshot built''
                        (snapshot_counts example_snapshot)],
            current = Some (example_snapshot\<lparr>Markdown := buildMarkdown example_snapshot\<rparr>)\<rparr>"
    unfolding New_def build_ok_client e by (simp add: snapshot_counts_def)
  from cache_always_ready[OF n] n show ?thesis by blast
qed

end
